theory Spec2Isabelle
  imports Complex_Main "HOL-Library.AList"
begin

section \<open>JavaScript values\<close>

text \<open>
  The values that \<^verbatim>\<open>JSON.parse\<close> produces, plus \<^verbatim>\<open>undefined\<close>, which a
  property read returns for a missing key. JSON numbers are rationals.
\<close>

datatype jsval =
    JUndefined
  | JNull
  | JBool bool
  | JNum rat
  | JStr string
  | JArr "jsval list"
  | JObj "(string \<times> jsval) list"

text \<open>What \<^verbatim>\<open>if (v)\<close>, \<^verbatim>\<open>!v\<close> and \<^verbatim>\<open>v || d\<close> test.\<close>

fun truthy :: "jsval \<Rightarrow> bool" where
  "truthy JUndefined = False"
| "truthy JNull = False"
| "truthy (JBool b) = b"
| "truthy (JNum q) = (q \<noteq> 0)"
| "truthy (JStr s) = (s \<noteq> [])"
| "truthy (JArr xs) = True"
| "truthy (JObj kvs) = True"

definition js_or :: "jsval \<Rightarrow> jsval \<Rightarrow> jsval" where
  "js_or v d = (if truthy v then v else d)"

text \<open>
  Modelled from the spec: \<^verbatim>\<open>utils/errors.js\<close>, which declares \<^verbatim>\<open>ErrorType\<close> and
  \<^verbatim>\<open>McpUnityError\<close>, is not among the sources. The error kinds are the three of the
  spec's taxonomy (Connection, ToolExecution, Timeout), the ones the program constructs; an
  error carries what \<^verbatim>\<open>new McpUnityError(type, message, details)\<close> is given.
\<close>

datatype ErrorType = CONNECTION | TOOL_EXECUTION | TIMEOUT

record McpUnityError =
  etype :: ErrorType
  emessage :: jsval
  edetails :: jsval

datatype exn = SyntaxError | TypeError | Thrown McpUnityError

text \<open>A field of an object given by its properties, \<^verbatim>\<open>undefined\<close> when missing.\<close>

definition field :: "(string \<times> jsval) list \<Rightarrow> string \<Rightarrow> jsval" where
  "field kvs k = (case map_of kvs k of None \<Rightarrow> JUndefined | Some v \<Rightarrow> v)"

text \<open>
  A property read \<^verbatim>\<open>v.k\<close>: a TypeError on \<^verbatim>\<open>null\<close> and \<^verbatim>\<open>undefined\<close>, the
  stored value on an object that has the key, \<^verbatim>\<open>undefined\<close> otherwise (booleans,
  numbers, strings and arrays carry none of the property names the program reads).
\<close>

fun getProp :: "jsval \<Rightarrow> string \<Rightarrow> exn + jsval" where
  "getProp JUndefined k = Inl TypeError"
| "getProp JNull k = Inl TypeError"
| "getProp (JObj kvs) k = Inr (field kvs k)"
| "getProp v k = Inr JUndefined"

section \<open>The state of a McpUnity instance\<close>

datatype readyState = CONNECTING | OPEN | CLOSING | CLOSED

text \<open>
  The WebSocket held in \<^verbatim>\<open>this.ws\<close>, with the options it was created with. Its URL
  is the same for every socket of an instance and is left out.
\<close>

record webSocket =
  readyState :: readyState
  xClientName :: string
  origin :: string

text \<open>
  A value of \<^verbatim>\<open>pendingRequests\<close>: \<^verbatim>\<open>resolve\<close> and \<^verbatim>\<open>reject\<close> belong to one
  promise, named by a number; \<^verbatim>\<open>timeout\<close> is the handle \<^verbatim>\<open>setTimeout\<close> returned.
\<close>

record pendingRequest =
  waiter :: nat
  timeout :: nat

text \<open>
  An armed request timer: its delay and what its callback closes over, the
  \<^verbatim>\<open>requestId\<close> and the \<^verbatim>\<open>reject\<close> of the promise of that call.
\<close>

record timer =
  delay :: nat
  requestId :: string
  rejects :: nat

datatype outcome = Resolved jsval | Rejected McpUnityError

record unityRequest =
  rid :: "string option"
  rmethod :: string
  rparams :: jsval

record unityMessage =
  mid :: string
  mmethod :: string
  mparams :: jsval

datatype wsCall = Terminate | Close

text \<open>
  The fields of the class (\<^verbatim>\<open>ws\<close>, \<^verbatim>\<open>pendingRequests\<close>) and what the run-time
  holds for it: the armed timers, every \<^verbatim>\<open>resolve\<close>/\<^verbatim>\<open>reject\<close> call made so far
  in order (\<open>settled\<close>), every message handed to \<^verbatim>\<open>ws.send\<close> without a throw
  (\<open>sent\<close>), the \<^verbatim>\<open>terminate\<close>/\<^verbatim>\<open>close\<close> calls, the number of sockets
  constructed and of \<^verbatim>\<open>reconnect\<close> calls, and the next fresh promise and timer.
  The map \<^verbatim>\<open>pendingRequests\<close> is an association list in insertion order.
\<close>

record McpUnity =
  ws :: "webSocket option"
  pendingRequests :: "(string \<times> pendingRequest) list"
  timers :: "(nat \<times> timer) list"
  settled :: "(nat \<times> outcome) list"
  sent :: "unityMessage list"
  wsCalls :: "wsCall list"
  connects :: nat
  reconnects :: nat
  nextWaiter :: nat
  nextTimer :: nat

definition REQUEST_TIMEOUT :: nat where
  "REQUEST_TIMEOUT = 10000"

definition newMcpUnity :: McpUnity where
  "newMcpUnity = \<lparr>ws = None, pendingRequests = [], timers = [], settled = [], sent = [],
     wsCalls = [], connects = 0, reconnects = 0, nextWaiter = 0, nextTimer = 0\<rparr>"

definition mkError :: "ErrorType \<Rightarrow> string \<Rightarrow> McpUnityError" where
  "mkError ty msg = \<lparr>etype = ty, emessage = JStr msg, edetails = JUndefined\<rparr>"

definition isConnected :: "McpUnity \<Rightarrow> bool" where
  "isConnected s = (case ws s of None \<Rightarrow> False | Some h \<Rightarrow> readyState h = OPEN)"

definition has :: "string \<Rightarrow> McpUnity \<Rightarrow> bool" where
  "has k s = (map_of (pendingRequests s) k \<noteq> None)"

definition clearTimeout :: "nat \<Rightarrow> McpUnity \<Rightarrow> McpUnity" where
  "clearTimeout t s = s\<lparr>timers := AList.delete t (timers s)\<rparr>"

definition deletePending :: "string \<Rightarrow> McpUnity \<Rightarrow> McpUnity" where
  "deletePending k s = s\<lparr>pendingRequests := AList.delete k (pendingRequests s)\<rparr>"

definition settle :: "nat \<Rightarrow> outcome \<Rightarrow> McpUnity \<Rightarrow> McpUnity" where
  "settle p oc s = s\<lparr>settled := settled s @ [(p, oc)]\<rparr>"

section \<open>disconnect, connect, reconnect\<close>

text \<open>
  The loop of \<^verbatim>\<open>disconnect\<close> over \<^verbatim>\<open>pendingRequests.entries()\<close>: clear the timer,
  reject with "Connection closed", delete the key. The loop deletes only the key it is
  at, so it visits every entry the map held when it began.
\<close>

fun rejectAll :: "(string \<times> pendingRequest) list \<Rightarrow> McpUnity \<Rightarrow> McpUnity" where
  "rejectAll [] s = s"
| "rejectAll ((k, request) # rest) s =
     rejectAll rest
       (deletePending k
         (settle (waiter request) (Rejected (mkError CONNECTION ''Connection closed''))
           (clearTimeout (timeout request) s)))"

definition closeCall :: "readyState \<Rightarrow> wsCall list" where
  "closeCall rs = (if rs = CONNECTING then [Terminate] else if rs = OPEN then [Close] else [])"

definition disconnect :: "McpUnity \<Rightarrow> McpUnity" where
  "disconnect s =
     (case ws s of
        None \<Rightarrow> s
      | Some h \<Rightarrow>
          (let s1 = s\<lparr>wsCalls := wsCalls s @ closeCall (readyState h), ws := None\<rparr>
           in rejectAll (pendingRequests s1) s1))"

definition orEmpty :: "string option \<Rightarrow> string" where
  "orEmpty clientName = (case clientName of None \<Rightarrow> [] | Some n \<Rightarrow> n)"

text \<open>
  \<^verbatim>\<open>connect\<close> up to the point where it waits for the socket: the guard, the
  \<^verbatim>\<open>disconnect\<close>, the new socket with its options.
\<close>

definition connect_begin :: "string option \<Rightarrow> McpUnity \<Rightarrow> McpUnity" where
  "connect_begin clientName s =
     (if isConnected s then s
      else (let s1 = disconnect s
            in s1\<lparr>ws := Some \<lparr>readyState = CONNECTING, xClientName = orEmpty clientName,
                                 origin = orEmpty clientName\<rparr>,
                   connects := connects s1 + 1\<rparr>))"

text \<open>
  How the wait ends: \<^verbatim>\<open>onopen\<close> (the transport is open), \<^verbatim>\<open>onerror\<close> with the
  event's message, or the connection timer while the socket is still connecting. The wait
  is taken as one step with the creation of the socket: nothing else happens to the
  instance in between, so the socket is still the one just created, still connecting.
\<close>

datatype connectOutcome = Opened | Errored string | TimedOut

definition setReadyState :: "readyState \<Rightarrow> McpUnity \<Rightarrow> McpUnity" where
  "setReadyState rs s = s\<lparr>ws := map_option (\<lambda>h. h\<lparr>readyState := rs\<rparr>) (ws s)\<rparr>"

definition connect_end :: "connectOutcome \<Rightarrow> McpUnity \<Rightarrow> McpUnityError option \<times> McpUnity" where
  "connect_end oc s =
     (case oc of
        Opened \<Rightarrow> (None, setReadyState OPEN s)
      | Errored m \<Rightarrow>
          (Some (mkError CONNECTION
                   (''Connection failed: '' @ (if m = [] then ''Unknown error'' else m))),
           disconnect s)
      | TimedOut \<Rightarrow> (Some (mkError CONNECTION ''Connection timeout''), disconnect s))"

text \<open>\<^verbatim>\<open>await this.connect(clientName)\<close>: the error is the rejection, if any.\<close>

definition connect :: "string option \<Rightarrow> connectOutcome \<Rightarrow> McpUnity \<Rightarrow> McpUnityError option \<times> McpUnity" where
  "connect clientName oc s =
     (if isConnected s then (None, s) else connect_end oc (connect_begin clientName s))"

text \<open>\<^verbatim>\<open>reconnect\<close> does not wait for the connect it starts.\<close>

definition reconnect :: "McpUnity \<Rightarrow> McpUnity" where
  "reconnect s = connect_begin None ((disconnect s)\<lparr>reconnects := reconnects s + 1\<rparr>)"

definition start :: "string option \<Rightarrow> connectOutcome \<Rightarrow> McpUnity \<Rightarrow> McpUnity" where
  "start clientName oc s =
     (case connect clientName oc s of
        (None, s1) \<Rightarrow> s1
      | (Some e, s1) \<Rightarrow> disconnect s1)"

section \<open>handleMessage\<close>

text \<open>
  The body of the \<^verbatim>\<open>try\<close>. The argument is what \<^verbatim>\<open>JSON.parse(data)\<close> gives,
  \<open>None\<close> when it throws.
\<close>

definition handleMessage_try :: "jsval option \<Rightarrow> McpUnity \<Rightarrow> exn + McpUnity" where
  "handleMessage_try parsed s =
     (case parsed of
        None \<Rightarrow> Inl SyntaxError
      | Some response \<Rightarrow>
          (case getProp response ''id'' of
             Inl e \<Rightarrow> Inl e
           | Inr i \<Rightarrow>
               (case (if truthy i then i else JUndefined) of
                  JStr k \<Rightarrow>
                    (case map_of (pendingRequests s) k of
                       None \<Rightarrow> Inr s
                     | Some request \<Rightarrow>
                         (let s1 = deletePending k (clearTimeout (timeout request) s)
                          in case getProp response ''error'' of
                               Inl e \<Rightarrow> Inl e
                             | Inr err \<Rightarrow>
                                 if truthy err then
                                   (case getProp err ''message'' of
                                      Inl e \<Rightarrow> Inl e
                                    | Inr m \<Rightarrow>
                                        (case getProp err ''details'' of
                                           Inl e \<Rightarrow> Inl e
                                         | Inr d \<Rightarrow>
                                             Inr (settle (waiter request)
                                                   (Rejected \<lparr>etype = TOOL_EXECUTION,
                                                      emessage = js_or m (JStr ''Unknown error''),
                                                      edetails = d\<rparr>) s1)))
                                 else
                                   (case getProp response ''result'' of
                                      Inl e \<Rightarrow> Inl e
                                    | Inr r \<Rightarrow> Inr (settle (waiter request) (Resolved r) s1))))
                | _ \<Rightarrow> Inr s)))"

text \<open>
  The \<^verbatim>\<open>catch\<close> logs and returns. The body throws only before it has changed anything
  (the parse, or reading \<^verbatim>\<open>id\<close> of \<^verbatim>\<open>null\<close>), so the state is the one it began with.
\<close>

definition handleMessage :: "jsval option \<Rightarrow> McpUnity \<Rightarrow> McpUnity" where
  "handleMessage parsed s = (case handleMessage_try parsed s of Inl e \<Rightarrow> s | Inr s1 \<Rightarrow> s1)"

section \<open>sendRequest and its timer\<close>

text \<open>The callback given to \<^verbatim>\<open>setTimeout\<close> in \<^verbatim>\<open>sendRequest\<close>.\<close>

definition requestTimedOut :: "string \<Rightarrow> nat \<Rightarrow> McpUnity \<Rightarrow> McpUnity" where
  "requestTimedOut k p s =
     reconnect
       (if has k s then settle p (Rejected (mkError TIMEOUT ''Request timed out'')) (deletePending k s)
        else s)"

text \<open>The run-time fires an armed timer: it is disarmed and its callback runs.\<close>

definition timerFire :: "nat \<Rightarrow> McpUnity \<Rightarrow> McpUnity" where
  "timerFire t s =
     (case map_of (timers s) t of
        None \<Rightarrow> s
      | Some c \<Rightarrow> requestTimedOut (requestId c) (rejects c) (clearTimeout t s))"

text \<open>
  The executor of the promise \<^verbatim>\<open>sendRequest\<close> returns. \<open>sendErr\<close> is the message of
  the error \<^verbatim>\<open>ws.send\<close> throws, if it throws.
\<close>

definition sendRequest_exec :: "unityMessage \<Rightarrow> string option \<Rightarrow> McpUnity \<Rightarrow> nat \<times> McpUnity" where
  "sendRequest_exec message sendErr s =
     (let p = nextWaiter s; s0 = s\<lparr>nextWaiter := p + 1\<rparr>
      in if ws s0 = None \<or> \<not> isConnected s0 then
           (p, settle p (Rejected (mkError CONNECTION ''Not connected to Unity'')) s0)
         else
           (let t = nextTimer s0;
                s1 = s0\<lparr>nextTimer := t + 1,
                        timers := AList.update t
                          \<lparr>delay = REQUEST_TIMEOUT, requestId = mid message, rejects = p\<rparr>
                          (timers s0)\<rparr>;
                s2 = s1\<lparr>pendingRequests := AList.update (mid message)
                          \<lparr>waiter = p, timeout = t\<rparr> (pendingRequests s1)\<rparr>
            in case sendErr of
                 None \<Rightarrow> (p, s2\<lparr>sent := sent s2 @ [message]\<rparr>)
               | Some e \<Rightarrow>
                   (p, settle p (Rejected (mkError CONNECTION (''Send failed: '' @ e)))
                         (deletePending (mid message) (clearTimeout t s2)))))"

text \<open>\<^verbatim>\<open>request.id || uuidv4()\<close>, with the value \<^verbatim>\<open>uuidv4()\<close> would return.\<close>

definition requestIdOf :: "unityRequest \<Rightarrow> string \<Rightarrow> string" where
  "requestIdOf request uuid =
     (case rid request of None \<Rightarrow> uuid | Some i \<Rightarrow> if i = [] then uuid else i)"

text \<open>
  A call of \<^verbatim>\<open>sendRequest\<close> whose awaited connect was rejected: its promise is rejected
  with that error, and the executor never runs.
\<close>

definition rejectNew :: "McpUnityError \<Rightarrow> McpUnity \<Rightarrow> nat \<times> McpUnity" where
  "rejectNew e s =
     (nextWaiter s, settle (nextWaiter s) (Rejected e) (s\<lparr>nextWaiter := nextWaiter s + 1\<rparr>))"

text \<open>
  \<^verbatim>\<open>sendRequest\<close>, returning the promise: the connect it awaits when not connected
  ends as \<open>oc\<close> says; a rejected connect rejects the promise with that error.
\<close>

definition sendRequest ::
  "unityRequest \<Rightarrow> string \<Rightarrow> connectOutcome \<Rightarrow> string option \<Rightarrow> McpUnity \<Rightarrow> nat \<times> McpUnity" where
  "sendRequest request uuid oc sendErr s =
     (case (if \<not> isConnected s then connect None oc s else (None, s)) of
        (Some e, s1) \<Rightarrow> rejectNew e s1
      | (None, s1) \<Rightarrow>
          sendRequest_exec
            \<lparr>mid = requestIdOf request uuid, mmethod = rmethod request, mparams = rparams request\<rparr>
            sendErr s1)"

section \<open>Runs\<close>

text \<open>
  What can happen to an instance, one event at a time (the program runs on a single thread:
  no two handlers overlap). \<open>Start\<close> and \<open>SendRequest\<close> are the calls of \<^verbatim>\<open>start\<close> and
  \<^verbatim>\<open>sendRequest\<close> with nothing else happening while they wait for their connect.
  \<open>Message\<close> is the \<^verbatim>\<open>onmessage\<close> handler, \<open>TimerFire\<close> the run-time firing a request
  timer, \<open>Disconnect\<close> a call of \<^verbatim>\<open>disconnect\<close> (by \<^verbatim>\<open>stop\<close>, by the \<^verbatim>\<open>onclose\<close> or
  \<^verbatim>\<open>onerror\<close> handler, or by a connection timer), and \<open>Transport\<close> the socket changing
  its \<^verbatim>\<open>readyState\<close> on its own (a socket that opens, a peer that starts closing).

  The last three are the parts of a call that waits while other events happen:
  \<open>ConnectBegin\<close> is \<^verbatim>\<open>connect\<close> up to its wait, \<open>Executor\<close> the executor of the promise
  of a \<^verbatim>\<open>sendRequest\<close> whose wait is over, and \<open>ConnectRejected\<close> a \<^verbatim>\<open>sendRequest\<close>
  whose awaited connect was rejected.
\<close>

datatype event =
    Start "string option" connectOutcome
  | SendRequest unityRequest string connectOutcome "string option"
  | Message "jsval option"
  | TimerFire nat
  | Disconnect
  | Transport readyState
  | ConnectBegin "string option"
  | Executor unityMessage "string option"
  | ConnectRejected McpUnityError

fun step :: "McpUnity \<Rightarrow> event \<Rightarrow> McpUnity" where
  "step s (Start clientName oc) = start clientName oc s"
| "step s (SendRequest request uuid oc sendErr) = snd (sendRequest request uuid oc sendErr s)"
| "step s (Message parsed) = handleMessage parsed s"
| "step s (TimerFire t) = timerFire t s"
| "step s Disconnect = disconnect s"
| "step s (Transport rs) = setReadyState rs s"
| "step s (ConnectBegin clientName) = connect_begin clientName s"
| "step s (Executor message sendErr) = snd (sendRequest_exec message sendErr s)"
| "step s (ConnectRejected e) = snd (rejectNew e s)"

definition run :: "event list \<Rightarrow> McpUnity" where
  "run evs = foldl step newMcpUnity evs"

section \<open>The get_console_logs tool\<close>

text \<open>
  What the chain \<^verbatim>\<open>z.number().int().min(a).max(b).optional()\<close> of the parameter
  schema accepts: \<^verbatim>\<open>undefined\<close>, or a number that is an integer within the bounds.
\<close>

definition isInteger :: "rat \<Rightarrow> bool" where
  "isInteger q = (rat_of_int \<lfloor>q\<rfloor> = q)"

definition logTypeSchema :: "jsval \<Rightarrow> bool" where
  "logTypeSchema v =
     (case v of
        JUndefined \<Rightarrow> True
      | JStr x \<Rightarrow> x = ''info'' \<or> x = ''warning'' \<or> x = ''error''
      | _ \<Rightarrow> False)"

definition offsetSchema :: "jsval \<Rightarrow> bool" where
  "offsetSchema v =
     (case v of JUndefined \<Rightarrow> True | JNum q \<Rightarrow> isInteger q \<and> 0 \<le> q | _ \<Rightarrow> False)"

definition limitSchema :: "jsval \<Rightarrow> bool" where
  "limitSchema v =
     (case v of
        JUndefined \<Rightarrow> True
      | JNum q \<Rightarrow> isInteger q \<and> 1 \<le> q \<and> q \<le> 500
      | _ \<Rightarrow> False)"

definition includeStackTraceSchema :: "jsval \<Rightarrow> bool" where
  "includeStackTraceSchema v = (case v of JUndefined \<Rightarrow> True | JBool b \<Rightarrow> True | _ \<Rightarrow> False)"

definition paramsSchema :: "(string \<times> jsval) list \<Rightarrow> bool" where
  "paramsSchema params =
     (logTypeSchema (field params ''logType'') \<and>
      offsetSchema (field params ''offset'') \<and>
      limitSchema (field params ''limit'') \<and>
      includeStackTraceSchema (field params ''includeStackTrace''))"

text \<open>A destructuring default \<^verbatim>\<open>{ x = d }\<close> applies when the field is \<^verbatim>\<open>undefined\<close>.\<close>

definition orDefault :: "jsval \<Rightarrow> jsval \<Rightarrow> jsval" where
  "orDefault v d = (if v = JUndefined then d else v)"

text \<open>The request \<^verbatim>\<open>toolHandler\<close> passes to \<^verbatim>\<open>sendRequest\<close>.\<close>

definition toolRequest :: "(string \<times> jsval) list \<Rightarrow> unityRequest" where
  "toolRequest params =
     \<lparr>rid = None, rmethod = ''get_console_logs'',
      rparams = JObj
        [(''logType'', field params ''logType''),
         (''offset'', orDefault (field params ''offset'') (JNum 0)),
         (''limit'', orDefault (field params ''limit'') (JNum 50)),
         (''includeStackTrace'', orDefault (field params ''includeStackTrace'') (JBool True))]\<rparr>"

text \<open>
  What \<^verbatim>\<open>toolHandler\<close> does with the response: the error it throws, or the value
  it hands to \<^verbatim>\<open>JSON.stringify\<close> for the text of its result.
\<close>

definition toolResult :: "jsval \<Rightarrow> exn + jsval" where
  "toolResult response =
     (case getProp response ''success'' of
        Inl e \<Rightarrow> Inl e
      | Inr ok \<Rightarrow>
          if \<not> truthy ok then
            (case getProp response ''message'' of
               Inl e \<Rightarrow> Inl e
             | Inr m \<Rightarrow>
                 Inl (Thrown \<lparr>etype = TOOL_EXECUTION,
                        emessage = js_or m (JStr ''Failed to fetch logs from Unity''),
                        edetails = JUndefined\<rparr>))
          else
            (case getProp response ''data'' of
               Inl e \<Rightarrow> Inl e
             | Inr d \<Rightarrow>
                 (case getProp response ''logs'' of
                    Inl e \<Rightarrow> Inl e
                  | Inr l \<Rightarrow> Inr (js_or d (js_or l response)))))"

text \<open>
  \<^verbatim>\<open>toolHandler\<close>, given how the promise of \<^verbatim>\<open>sendRequest\<close> settles for a
  request: the requests it sent, and what it throws or returns.
\<close>

definition toolHandler ::
  "(unityRequest \<Rightarrow> outcome) \<Rightarrow> (string \<times> jsval) list \<Rightarrow> unityRequest list \<times> (exn + jsval)" where
  "toolHandler unity params =
     (let request = toolRequest params
      in ([request],
          case unity request of
            Rejected err \<Rightarrow> Inl (Thrown err)
          | Resolved response \<Rightarrow> toolResult response))"

section \<open>Definitions for the properties\<close>

text \<open>The rejection \<^verbatim>\<open>disconnect\<close> hands to the waiter of a table entry.\<close>

definition closedRejection :: "string \<times> pendingRequest \<Rightarrow> nat \<times> outcome" where
  "closedRejection e = (waiter (snd e), Rejected (mkError CONNECTION ''Connection closed''))"

text \<open>
  The state \<^verbatim>\<open>sendRequest\<close> reaches once it has armed the timer and stored the entry,
  before \<^verbatim>\<open>ws.send\<close>.
\<close>

definition registered :: "unityMessage \<Rightarrow> McpUnity \<Rightarrow> McpUnity" where
  "registered m s =
     s\<lparr>nextWaiter := nextWaiter s + 1, nextTimer := nextTimer s + 1,
       timers := AList.update (nextTimer s)
         \<lparr>delay = REQUEST_TIMEOUT, requestId = mid m, rejects = nextWaiter s\<rparr> (timers s),
       pendingRequests := AList.update (mid m)
         \<lparr>waiter = nextWaiter s, timeout = nextTimer s\<rparr> (pendingRequests s)\<rparr>"

text \<open>
  What every run keeps true: no socket means an empty table; the keys of the table are
  distinct; promises and timers in use were handed out earlier; every armed timer has the
  delay \<^verbatim>\<open>REQUEST_TIMEOUT\<close>; and an entry that holds the promise a timer rejects is
  stored under that timer's identifier.
\<close>

definition consistent :: "McpUnity \<Rightarrow> bool" where
  "consistent s =
     ((ws s = None \<longrightarrow> pendingRequests s = []) \<and>
      distinct (map fst (pendingRequests s)) \<and>
      (\<forall>e \<in> set (pendingRequests s). waiter (snd e) < nextWaiter s \<and> timeout (snd e) < nextTimer s) \<and>
      (\<forall>c \<in> set (timers s). fst c < nextTimer s \<and> rejects (snd c) < nextWaiter s \<and>
                               delay (snd c) = REQUEST_TIMEOUT) \<and>
      (\<forall>x \<in> set (settled s). fst x < nextWaiter s) \<and>
      (\<forall>e \<in> set (pendingRequests s). \<forall>c \<in> set (timers s).
          waiter (snd e) = rejects (snd c) \<longrightarrow> fst e = requestId (snd c)))"

section \<open>Scenarios\<close>

definition logsRequest :: "string \<Rightarrow> unityRequest" where
  "logsRequest k =
     \<lparr>rid = Some k, rmethod = ''get_console_logs'', rparams = JObj [(''limit'', JNum 50)]\<rparr>"

text \<open>Started as client "Cursor"; requests "A" and "B" sent and not yet answered.\<close>

definition twoPending :: "event list" where
  "twoPending =
     [Start (Some ''Cursor'') Opened,
      SendRequest (logsRequest ''A'') ''uuid-1'' Opened None,
      SendRequest (logsRequest ''B'') ''uuid-2'' Opened None]"

section \<open>Reading a reply\<close>

text \<open>The value of \<^verbatim>\<open>v.k\<close> where the read does not throw.\<close>

definition propOf :: "jsval \<Rightarrow> string \<Rightarrow> jsval" where
  "propOf v k = (case getProp v k of Inl e \<Rightarrow> JUndefined | Inr x \<Rightarrow> x)"

text \<open>
  The outcome C7 states for a reply, in its words: an error field that is present rejects
  with a ToolExecution error carrying the error's message and details; otherwise the
  result field resolves.
\<close>

definition claimedReplyOutcome :: "(string \<times> jsval) list \<Rightarrow> outcome" where
  "claimedReplyOutcome kvs =
     (case map_of kvs ''error'' of
        None \<Rightarrow> Resolved (field kvs ''result'')
      | Some err \<Rightarrow>
          Rejected \<lparr>etype = TOOL_EXECUTION, emessage = propOf err ''message'',
                    edetails = propOf err ''details''\<rparr>)"

section \<open>What a promise has received\<close>

text \<open>The calls made so far to the \<^verbatim>\<open>resolve\<close> and \<^verbatim>\<open>reject\<close> of promise \<open>p\<close>, in order.\<close>

definition outcomesOf :: "nat \<Rightarrow> McpUnity \<Rightarrow> outcome list" where
  "outcomesOf p s = map snd (filter (\<lambda>x. fst x = p) (settled s))"

text \<open>The error a failed \<^verbatim>\<open>connect\<close> rejects with.\<close>

definition connectError :: "connectOutcome \<Rightarrow> McpUnityError" where
  "connectError oc =
     (case oc of
        Errored m \<Rightarrow>
          mkError CONNECTION (''Connection failed: '' @ (if m = [] then ''Unknown error'' else m))
      | _ \<Rightarrow> mkError CONNECTION ''Connection timeout'')"

text \<open>
  The state in which the executor of the promise runs when the connect, if one was needed,
  has succeeded.
\<close>

definition afterConnect :: "McpUnity \<Rightarrow> McpUnity" where
  "afterConnect s = (if isConnected s then s else setReadyState OPEN (connect_begin None s))"

section \<open>The tool's failure, as C10 states it\<close>

text \<open>
  C10 in its words: a response that lacks a truthy \<^verbatim>\<open>success\<close> field makes the handler
  throw a ToolExecution error with the response's message or the default text.
\<close>

definition lacksTruthySuccess :: "jsval \<Rightarrow> bool" where
  "lacksTruthySuccess response = (\<not> truthy (propOf response ''success''))"

definition claimedToolFailure :: "jsval \<Rightarrow> exn + jsval" where
  "claimedToolFailure response =
     Inl (Thrown \<lparr>etype = TOOL_EXECUTION,
            emessage = js_or (propOf response ''message'') (JStr ''Failed to fetch logs from Unity''),
            edetails = JUndefined\<rparr>)"

section \<open>Runs that do not reuse a pending identifier\<close>

text \<open>
  \<open>noReuseFrom s evs\<close>: running \<open>evs\<close> from \<open>s\<close>, no \<^verbatim>\<open>sendRequest\<close> is called, and
  no executor runs, with an identifier that is a key of the table at that time.
\<close>

fun noReuseFrom :: "McpUnity \<Rightarrow> event list \<Rightarrow> bool" where
  "noReuseFrom s [] = True"
| "noReuseFrom s (SendRequest request uuid oc sendErr # evs) =
     (\<not> has (requestIdOf request uuid) s \<and>
      noReuseFrom (step s (SendRequest request uuid oc sendErr)) evs)"
| "noReuseFrom s (Executor message sendErr # evs) =
     (\<not> has (mid message) s \<and> noReuseFrom (step s (Executor message sendErr)) evs)"
| "noReuseFrom s (ev # evs) = noReuseFrom (step s ev) evs"

definition noReuse :: "event list \<Rightarrow> bool" where
  "noReuse evs = noReuseFrom newMcpUnity evs"

text \<open>
  The table and the timers go together: keys are distinct, the timer of every entry is
  armed and closes over that entry's identifier and promise, and every armed timer has its
  entry in the table.
\<close>

definition coupled :: "McpUnity \<Rightarrow> bool" where
  "coupled s =
     (distinct (map fst (pendingRequests s)) \<and> distinct (map fst (timers s)) \<and>
      (\<forall>x \<in> set (pendingRequests s).
         map_of (timers s) (timeout (snd x)) =
           Some \<lparr>delay = REQUEST_TIMEOUT, requestId = fst x, rejects = waiter (snd x)\<rparr>) \<and>
      (\<forall>c \<in> set (timers s).
         map_of (pendingRequests s) (requestId (snd c)) =
           Some \<lparr>waiter = rejects (snd c), timeout = fst c\<rparr>))"

text \<open>The number of table entries that hold promise \<open>p\<close>.\<close>

definition waiting :: "nat \<Rightarrow> McpUnity \<Rightarrow> nat" where
  "waiting p s = length (filter (\<lambda>x. waiter (snd x) = p) (pendingRequests s))"


section \<open>A scenario that reuses a pending identifier\<close>

text \<open>Two requests sent under the identifier "X", the second while the first is pending.\<close>

definition reusedId :: "event list" where
  "reusedId =
     [Start None Opened,
      SendRequest (logsRequest ''X'') ''uuid-1'' Opened None,
      SendRequest (logsRequest ''X'') ''uuid-2'' Opened None]"

text \<open>The peer's reply \<^verbatim>\<open>{"id": "X", "result": {"success": true}}\<close>.\<close>

definition replyX :: event where
  "replyX = Message (Some (JObj [(''id'', JStr ''X''), (''result'', JObj [(''success'', JBool True)])]))"

text \<open>
  Promise \<open>p\<close> has been handed out, has received nothing, is held by no entry of the
  table and is rejected by no armed timer.
\<close>

definition orphaned :: "nat \<Rightarrow> McpUnity \<Rightarrow> bool" where
  "orphaned p s =
     (p < nextWaiter s \<and> outcomesOf p s = [] \<and> waiting p s = 0 \<and>
      (\<forall>c \<in> set (timers s). rejects (snd c) \<noteq> p))"

section \<open>Lemmas: the operations field by field, and what runs preserve\<close>


subsection \<open>Field by field: disconnect\<close>

lemma rejectAll_other [simp]:
  "ws (rejectAll xs s) = ws s"
  "sent (rejectAll xs s) = sent s"
  "wsCalls (rejectAll xs s) = wsCalls s"
  "connects (rejectAll xs s) = connects s"
  "reconnects (rejectAll xs s) = reconnects s"
  "nextWaiter (rejectAll xs s) = nextWaiter s"
  "nextTimer (rejectAll xs s) = nextTimer s"
  by (induction xs s rule: rejectAll.induct; simp add: deletePending_def settle_def clearTimeout_def)+

lemma rejectAll_settled:
  "settled (rejectAll xs s) = settled s @ map closedRejection xs"
  by (induction xs s rule: rejectAll.induct)
     (simp_all add: deletePending_def settle_def clearTimeout_def closedRejection_def)

lemma rejectAll_pending:
  "pendingRequests (rejectAll xs s) = filter (\<lambda>e. fst e \<notin> fst ` set xs) (pendingRequests s)"
proof (induction xs s rule: rejectAll.induct)
  case (1 s)
  then show ?case by simp
next
  case (2 k request rest s)
  then show ?case
    by (auto simp add: deletePending_def settle_def clearTimeout_def AList.delete_eq case_prod_unfold
        intro!: filter_cong)
qed

lemma rejectAll_timers:
  "timers (rejectAll xs s) = filter (\<lambda>c. fst c \<notin> (timeout \<circ> snd) ` set xs) (timers s)"
proof (induction xs s rule: rejectAll.induct)
  case (1 s)
  then show ?case by simp
next
  case (2 k request rest s)
  then show ?case
    by (auto simp add: deletePending_def settle_def clearTimeout_def AList.delete_eq case_prod_unfold
        intro!: filter_cong)
qed

lemma disconnect_None: "ws s = None \<Longrightarrow> disconnect s = s"
  by (simp add: disconnect_def)

lemma disconnect_ws [simp]: "ws (disconnect s) = None"
  by (simp add: disconnect_def split: option.splits)

lemma disconnect_other [simp]:
  "sent (disconnect s) = sent s"
  "connects (disconnect s) = connects s"
  "reconnects (disconnect s) = reconnects s"
  "nextWaiter (disconnect s) = nextWaiter s"
  "nextTimer (disconnect s) = nextTimer s"
  by (simp_all add: disconnect_def split: option.splits)

lemma disconnect_pending:
  "pendingRequests (disconnect s) = (if ws s = None then pendingRequests s else [])"
  by (simp add: disconnect_def rejectAll_pending filter_empty_conv split: option.splits)

lemma disconnect_settled:
  "settled (disconnect s) =
     (if ws s = None then settled s else settled s @ map closedRejection (pendingRequests s))"
  by (simp add: disconnect_def rejectAll_settled split: option.splits)

lemma disconnect_timers:
  "timers (disconnect s) =
     (if ws s = None then timers s
      else filter (\<lambda>c. fst c \<notin> (timeout \<circ> snd) ` set (pendingRequests s)) (timers s))"
  by (simp add: disconnect_def rejectAll_timers split: option.splits)

lemma disconnect_not_connected [simp]: "\<not> isConnected (disconnect s)"
  by (simp add: isConnected_def)

lemma consistent_disconnect: "consistent s \<Longrightarrow> consistent (disconnect s)"
  by (auto simp add: consistent_def disconnect_pending disconnect_settled disconnect_timers closedRejection_def)

subsection \<open>connect\<close>

lemma connect_begin_fields:
  "pendingRequests (connect_begin n s) = (if isConnected s then pendingRequests s else pendingRequests (disconnect s))"
  "timers (connect_begin n s) = (if isConnected s then timers s else timers (disconnect s))"
  "settled (connect_begin n s) = (if isConnected s then settled s else settled (disconnect s))"
  "sent (connect_begin n s) = sent s"
  "reconnects (connect_begin n s) = reconnects s"
  "nextWaiter (connect_begin n s) = nextWaiter s"
  "nextTimer (connect_begin n s) = nextTimer s"
  "ws (connect_begin n s) \<noteq> None"
  by (auto simp add: connect_begin_def Let_def isConnected_def split: option.splits)

lemma consistent_connect_begin: "consistent s \<Longrightarrow> consistent (connect_begin n s)"
  using consistent_disconnect [of s]
  by (auto simp add: consistent_def connect_begin_fields)

lemma setReadyState_fields [simp]:
  "pendingRequests (setReadyState rs s) = pendingRequests s"
  "timers (setReadyState rs s) = timers s"
  "settled (setReadyState rs s) = settled s"
  "sent (setReadyState rs s) = sent s"
  "reconnects (setReadyState rs s) = reconnects s"
  "connects (setReadyState rs s) = connects s"
  "nextWaiter (setReadyState rs s) = nextWaiter s"
  "nextTimer (setReadyState rs s) = nextTimer s"
  "(ws (setReadyState rs s) = None) = (ws s = None)"
  by (simp_all add: setReadyState_def)

lemma consistent_setReadyState: "consistent s \<Longrightarrow> consistent (setReadyState rs s)"
  by (simp add: consistent_def)

lemma consistent_connect_end: "consistent s \<Longrightarrow> consistent (snd (connect_end oc s))"
  by (cases oc) (simp_all add: connect_end_def consistent_setReadyState consistent_disconnect)

lemma consistent_connect: "consistent s \<Longrightarrow> consistent (snd (connect n oc s))"
  by (simp add: connect_def consistent_connect_end consistent_connect_begin)

lemma consistent_start: "consistent s \<Longrightarrow> consistent (start n oc s)"
  using consistent_connect [of s n oc]
  by (auto simp add: start_def consistent_disconnect split: prod.splits option.splits)

lemma consistent_reconnect: "consistent s \<Longrightarrow> consistent (reconnect s)"
proof -
  assume "consistent s"
  then have "consistent (disconnect s)" by (rule consistent_disconnect)
  then have "consistent ((disconnect s)\<lparr>reconnects := reconnects s + 1\<rparr>)"
    by (simp add: consistent_def)
  then show ?thesis
    unfolding reconnect_def by (rule consistent_connect_begin)
qed


subsection \<open>handleMessage\<close>

lemma handleMessage_cases:
  "handleMessage parsed s = s \<or>
   (\<exists>k request oc. map_of (pendingRequests s) k = Some request \<and>
      handleMessage parsed s =
        settle (waiter request) oc (deletePending k (clearTimeout (timeout request) s)))"
  by (auto simp add: handleMessage_def handleMessage_try_def Let_def
      split: option.splits sum.splits jsval.splits if_splits)

lemma consistent_clearTimeout: "consistent s \<Longrightarrow> consistent (clearTimeout t s)"
  by (auto simp add: consistent_def clearTimeout_def AList.delete_eq)

lemma consistent_deletePending: "consistent s \<Longrightarrow> consistent (deletePending k s)"
  by (auto simp add: consistent_def deletePending_def AList.delete_eq distinct_map_filter)

lemma consistent_settle: "consistent s \<Longrightarrow> p < nextWaiter s \<Longrightarrow> consistent (settle p oc s)"
  by (auto simp add: consistent_def settle_def)

lemma consistent_waiter_fresh:
  "consistent s \<Longrightarrow> map_of (pendingRequests s) k = Some request \<Longrightarrow> waiter request < nextWaiter s"
  by (auto simp add: consistent_def dest!: map_of_SomeD)

lemma consistent_own:
  "consistent s \<Longrightarrow> e \<in> set (pendingRequests s) \<Longrightarrow> (t, c) \<in> set (timers s) \<Longrightarrow>
   waiter (snd e) = rejects c \<Longrightarrow> fst e = requestId c"
  by (fastforce simp add: consistent_def)

lemma consistent_handleMessage: "consistent s \<Longrightarrow> consistent (handleMessage parsed s)"
proof -
  assume i: "consistent s"
  from handleMessage_cases [of parsed s] show ?thesis
  proof
    assume "handleMessage parsed s = s"
    with i show ?thesis by simp
  next
    assume "\<exists>k request oc. map_of (pendingRequests s) k = Some request \<and>
      handleMessage parsed s =
        settle (waiter request) oc (deletePending k (clearTimeout (timeout request) s))"
    then obtain k request oc where
      m: "map_of (pendingRequests s) k = Some request" and
      h: "handleMessage parsed s =
            settle (waiter request) oc (deletePending k (clearTimeout (timeout request) s))"
      by blast
    have "waiter request < nextWaiter s" using i m by (rule consistent_waiter_fresh)
    then have "waiter request < nextWaiter (deletePending k (clearTimeout (timeout request) s))"
      by (simp add: deletePending_def clearTimeout_def)
    moreover have "consistent (deletePending k (clearTimeout (timeout request) s))"
      using i by (simp add: consistent_clearTimeout consistent_deletePending)
    ultimately show ?thesis unfolding h by (simp add: consistent_settle)
  qed
qed

subsection \<open>The request timer\<close>

lemma consistent_requestTimedOut:
  "consistent s \<Longrightarrow> p < nextWaiter s \<Longrightarrow> consistent (requestTimedOut k p s)"
proof -
  assume i: "consistent s" and p: "p < nextWaiter s"
  have "consistent (deletePending k s)" using i by (rule consistent_deletePending)
  moreover have "p < nextWaiter (deletePending k s)" using p by (simp add: deletePending_def)
  ultimately have "consistent (settle p (Rejected (mkError TIMEOUT ''Request timed out'')) (deletePending k s))"
    by (rule consistent_settle)
  with i show ?thesis
    unfolding requestTimedOut_def by (intro consistent_reconnect) simp
qed

lemma consistent_timerFire: "consistent s \<Longrightarrow> consistent (timerFire t s)"
proof (cases "map_of (timers s) t")
  case None
  then show "consistent s \<Longrightarrow> consistent (timerFire t s)" by (simp add: timerFire_def)
next
  case (Some c)
  assume i: "consistent s"
  from Some have "(t, c) \<in> set (timers s)" by (rule map_of_SomeD)
  with i have "rejects c < nextWaiter s" by (auto simp add: consistent_def)
  then have "rejects c < nextWaiter (clearTimeout t s)" by (simp add: clearTimeout_def)
  with i show "consistent (timerFire t s)"
    by (simp add: timerFire_def Some consistent_requestTimedOut consistent_clearTimeout)
qed

subsection \<open>sendRequest\<close>

lemma set_update_subset: "set (AList.update k v al) \<subseteq> insert (k, v) (set al)"
  by (induction al) auto

lemma sendRequest_exec_not_connected:
  "\<not> isConnected s \<Longrightarrow>
   sendRequest_exec m e s =
     (nextWaiter s, settle (nextWaiter s) (Rejected (mkError CONNECTION ''Not connected to Unity''))
        (s\<lparr>nextWaiter := nextWaiter s + 1\<rparr>))"
  by (auto simp add: sendRequest_exec_def Let_def isConnected_def split: option.splits)

lemma sendRequest_exec_sent:
  "isConnected s \<Longrightarrow>
   sendRequest_exec m None s = (nextWaiter s, (registered m s)\<lparr>sent := sent s @ [m]\<rparr>)"
  by (auto simp add: sendRequest_exec_def Let_def isConnected_def registered_def split: option.splits)

lemma sendRequest_exec_failed:
  "isConnected s \<Longrightarrow>
   sendRequest_exec m (Some e) s =
     (nextWaiter s, settle (nextWaiter s) (Rejected (mkError CONNECTION (''Send failed: '' @ e)))
        (deletePending (mid m) (clearTimeout (nextTimer s) (registered m s))))"
  by (auto simp add: sendRequest_exec_def Let_def isConnected_def registered_def split: option.splits)

lemma consistent_registered: "consistent s \<Longrightarrow> isConnected s \<Longrightarrow> consistent (registered m s)"
proof -
  assume i: "consistent s" and conn: "isConnected s"
  define s2 where "s2 = registered m s"
  have sub1: "set (pendingRequests s2) \<subseteq>
      insert (mid m, \<lparr>waiter = nextWaiter s, timeout = nextTimer s\<rparr>) (set (pendingRequests s))"
    by (simp add: s2_def registered_def set_update_subset)
  have sub2: "set (timers s2) \<subseteq>
      insert (nextTimer s, \<lparr>delay = REQUEST_TIMEOUT, requestId = mid m, rejects = nextWaiter s\<rparr>)
        (set (timers s))"
    by (simp add: s2_def registered_def set_update_subset)
  have c: "nextWaiter s2 = nextWaiter s + 1" "nextTimer s2 = nextTimer s + 1"
    "settled s2 = settled s" "ws s2 = ws s"
    by (simp_all add: s2_def registered_def)
  have "consistent s2"
    unfolding consistent_def
  proof (intro conjI)
    show "ws s2 = None \<longrightarrow> pendingRequests s2 = []"
      using conn by (auto simp add: c isConnected_def)
    show "\<forall>e\<in>set (pendingRequests s2). waiter (snd e) < nextWaiter s2 \<and> timeout (snd e) < nextTimer s2"
      using i sub1 by (fastforce simp add: consistent_def c)
    show "\<forall>c\<in>set (timers s2). fst c < nextTimer s2 \<and> rejects (snd c) < nextWaiter s2 \<and>
            delay (snd c) = REQUEST_TIMEOUT"
      using i sub2 by (fastforce simp add: consistent_def c)
    show "distinct (map fst (pendingRequests s2))"
      using i by (simp add: s2_def registered_def consistent_def AList.distinct_update)
    show "\<forall>x\<in>set (settled s2). fst x < nextWaiter s2"
      using i by (auto simp add: consistent_def c less_SucI)
    show "\<forall>e\<in>set (pendingRequests s2). \<forall>c\<in>set (timers s2).
            waiter (snd e) = rejects (snd c) \<longrightarrow> fst e = requestId (snd c)"
    proof (intro ballI impI)
      fix e c
      assume e: "e \<in> set (pendingRequests s2)" and c: "c \<in> set (timers s2)"
        and w: "waiter (snd e) = rejects (snd c)"
      from e sub1 have e': "e = (mid m, \<lparr>waiter = nextWaiter s, timeout = nextTimer s\<rparr>) \<or>
          e \<in> set (pendingRequests s)" by blast
      from c sub2 have c': "c = (nextTimer s, \<lparr>delay = REQUEST_TIMEOUT, requestId = mid m,
          rejects = nextWaiter s\<rparr>) \<or> c \<in> set (timers s)" by blast
      from e' c' w i show "fst e = requestId (snd c)"
        by (fastforce simp add: consistent_def)
    qed
  qed
  then show ?thesis by (simp add: s2_def)
qed

lemma consistent_sendRequest_exec: "consistent s \<Longrightarrow> consistent (snd (sendRequest_exec m e s))"
proof -
  assume i: "consistent s"
  show ?thesis
  proof (cases "isConnected s")
    case False
    have "consistent (s\<lparr>nextWaiter := nextWaiter s + 1\<rparr>)"
      using i by (auto simp add: consistent_def less_SucI)
    then have "consistent (settle (nextWaiter s) (Rejected (mkError CONNECTION ''Not connected to Unity''))
                  (s\<lparr>nextWaiter := nextWaiter s + 1\<rparr>))"
      by (rule consistent_settle) simp
    with False show ?thesis
      by (simp add: sendRequest_exec_not_connected)
  next
    case True
    have i2: "consistent (registered m s)" using i True by (rule consistent_registered)
    show ?thesis
    proof (cases e)
      case None
      have "consistent ((registered m s)\<lparr>sent := sent s @ [m]\<rparr>)" using i2 by (simp add: consistent_def)
      with None True show ?thesis
        by (simp add: sendRequest_exec_sent)
    next
      case (Some msg)
      have "consistent (settle (nextWaiter s) (Rejected (mkError CONNECTION (''Send failed: '' @ msg)))
                  (deletePending (mid m) (clearTimeout (nextTimer s) (registered m s))))"
        using i2 by (intro consistent_settle consistent_deletePending consistent_clearTimeout)
                    (simp_all add: registered_def deletePending_def clearTimeout_def)
      with Some True show ?thesis
        by (simp add: sendRequest_exec_failed)
    qed
  qed
qed

lemma consistent_rejectNew: "consistent s \<Longrightarrow> consistent (snd (rejectNew e s))"
proof -
  assume i: "consistent s"
  have "consistent (s\<lparr>nextWaiter := nextWaiter s + 1\<rparr>)"
    using i by (auto simp add: consistent_def less_SucI)
  then have "consistent (settle (nextWaiter s) (Rejected e) (s\<lparr>nextWaiter := nextWaiter s + 1\<rparr>))"
    by (rule consistent_settle) simp
  then show ?thesis by (simp add: rejectNew_def)
qed

lemma consistent_sendRequest: "consistent s \<Longrightarrow> consistent (snd (sendRequest r u oc e s))"
proof -
  assume i: "consistent s"
  obtain err s1 where c: "(if \<not> isConnected s then connect None oc s else (None, s)) = (err, s1)"
    by (cases "if \<not> isConnected s then connect None oc s else (None, s)")
  have i1: "consistent s1"
    using i c consistent_connect [of s None oc] by (auto split: if_splits)
  show ?thesis
  proof (cases err)
    case None
    with c show ?thesis by (simp add: sendRequest_def i1 consistent_sendRequest_exec)
  next
    case (Some x)
    with c show ?thesis by (simp add: sendRequest_def i1 consistent_rejectNew)
  qed
qed

subsection \<open>Runs\<close>

lemma consistent_step: "consistent s \<Longrightarrow> consistent (step s e)"
  by (cases e)
     (simp_all add: consistent_start consistent_sendRequest consistent_handleMessage
        consistent_timerFire consistent_disconnect consistent_setReadyState
        consistent_connect_begin consistent_sendRequest_exec consistent_rejectNew)

lemma consistent_foldl: "consistent s \<Longrightarrow> consistent (foldl step s evs)"
  by (induction evs arbitrary: s) (simp_all add: consistent_step)

lemma consistent_new: "consistent newMcpUnity"
  by (simp add: consistent_def newMcpUnity_def)

lemma consistent_run: "consistent (run evs)"
  unfolding run_def by (rule consistent_foldl) (rule consistent_new)

subsection \<open>reconnect\<close>

lemma reconnect_fields:
  "ws (reconnect s) = Some \<lparr>readyState = CONNECTING, xClientName = [], origin = []\<rparr>"
  "pendingRequests (reconnect s) = pendingRequests (disconnect s)"
  "timers (reconnect s) = timers (disconnect s)"
  "settled (reconnect s) = settled (disconnect s)"
  "sent (reconnect s) = sent s"
  "reconnects (reconnect s) = reconnects s + 1"
  "connects (reconnect s) = connects s + 1"
  "nextWaiter (reconnect s) = nextWaiter s"
  "nextTimer (reconnect s) = nextTimer s"
  by (simp_all add: reconnect_def connect_begin_def isConnected_def orEmpty_def Let_def disconnect_None)

lemma has_clearTimeout [simp]: "has k (clearTimeout t s) = has k s"
  by (simp add: has_def clearTimeout_def)

lemma not_has_deletePending [simp]: "\<not> has k (deletePending k s)"
  by (simp add: has_def deletePending_def AList.delete_conv')

subsection \<open>sendRequest, case by case\<close>


lemma connect_failed:
  "\<not> isConnected s \<Longrightarrow> oc \<noteq> Opened \<Longrightarrow>
   connect None oc s = (Some (connectError oc), disconnect (connect_begin None s))"
  by (cases oc) (simp_all add: connect_def connect_end_def connectError_def)

lemma connect_opened:
  "\<not> isConnected s \<Longrightarrow>
   connect None Opened s = (None, setReadyState OPEN (connect_begin None s))"
  by (simp add: connect_def connect_end_def)




lemma consistent_afterConnect: "consistent s \<Longrightarrow> consistent (afterConnect s)"
  by (simp add: afterConnect_def consistent_setReadyState consistent_connect_begin)

lemma sendRequest_connect_failed:
  "\<not> isConnected s \<Longrightarrow> oc \<noteq> Opened \<Longrightarrow>
   sendRequest r u oc e s =
     (nextWaiter s,
      settle (nextWaiter s) (Rejected (connectError oc))
        ((disconnect (connect_begin None s))\<lparr>nextWaiter := nextWaiter s + 1\<rparr>))"
  by (simp add: sendRequest_def rejectNew_def connect_failed connect_begin_fields)

lemma sendRequest_proceeds:
  "isConnected s \<or> oc = Opened \<Longrightarrow>
   sendRequest r u oc e s =
     sendRequest_exec \<lparr>mid = requestIdOf r u, mmethod = rmethod r, mparams = rparams r\<rparr> e
       (afterConnect s)"
  by (auto simp add: sendRequest_def connect_opened afterConnect_def)

lemma outcomesOf_settle:
  "outcomesOf p (settle q oc s) = outcomesOf p s @ (if q = p then [oc] else [])"
  by (simp add: outcomesOf_def settle_def)


subsection \<open>The tool\<close>

lemma isInteger_iff: "isInteger q \<longleftrightarrow> (\<exists>n. q = rat_of_int n)"
  unfolding isInteger_def by (metis floor_of_int)

lemma limitSchema_iff:
  "limitSchema v \<longleftrightarrow> v = JUndefined \<or> (\<exists>n::int. v = JNum (rat_of_int n) \<and> 1 \<le> n \<and> n \<le> 500)"
proof (cases v)
  case (JNum q)
  have "(isInteger q \<and> 1 \<le> q \<and> q \<le> 500) \<longleftrightarrow> (\<exists>n::int. q = rat_of_int n \<and> 1 \<le> n \<and> n \<le> 500)"
  proof
    assume a: "isInteger q \<and> 1 \<le> q \<and> q \<le> 500"
    then obtain n where n: "q = rat_of_int n" by (auto simp add: isInteger_iff)
    with a have "1 \<le> n \<and> n \<le> 500" by simp
    with n show "\<exists>n::int. q = rat_of_int n \<and> 1 \<le> n \<and> n \<le> 500" by blast
  next
    assume "\<exists>n::int. q = rat_of_int n \<and> 1 \<le> n \<and> n \<le> 500"
    then show "isInteger q \<and> 1 \<le> q \<and> q \<le> 500" by (auto simp add: isInteger_iff)
  qed
  with JNum show ?thesis by (simp add: limitSchema_def)
qed (simp_all add: limitSchema_def)

lemma offsetSchema_iff:
  "offsetSchema v \<longleftrightarrow> v = JUndefined \<or> (\<exists>n::int. v = JNum (rat_of_int n) \<and> 0 \<le> n)"
proof (cases v)
  case (JNum q)
  have "(isInteger q \<and> 0 \<le> q) \<longleftrightarrow> (\<exists>n::int. q = rat_of_int n \<and> 0 \<le> n)"
  proof
    assume a: "isInteger q \<and> 0 \<le> q"
    then obtain n where n: "q = rat_of_int n" by (auto simp add: isInteger_iff)
    with a have "0 \<le> n" by simp
    with n show "\<exists>n::int. q = rat_of_int n \<and> 0 \<le> n" by blast
  next
    assume "\<exists>n::int. q = rat_of_int n \<and> 0 \<le> n"
    then show "isInteger q \<and> 0 \<le> q" by (auto simp add: isInteger_iff)
  qed
  with JNum show ?thesis by (simp add: offsetSchema_def)
qed (simp_all add: offsetSchema_def)

lemma toolResult_failure:
  "response \<noteq> JNull \<Longrightarrow> response \<noteq> JUndefined \<Longrightarrow> \<not> truthy (propOf response ''success'') \<Longrightarrow>
   toolResult response =
     Inl (Thrown \<lparr>etype = TOOL_EXECUTION,
            emessage = js_or (propOf response ''message'') (JStr ''Failed to fetch logs from Unity''),
            edetails = JUndefined\<rparr>)"
  by (cases response) (simp_all add: toolResult_def propOf_def)

subsection \<open>Association lists\<close>

lemma update_fresh: "k \<notin> fst ` set al \<Longrightarrow> AList.update k v al = al @ [(k, v)]"
  by (induction al) auto


lemma outcomesOf_append_closed:
  "length (filter (\<lambda>x. fst x = p) (map closedRejection xs)) =
   length (filter (\<lambda>x. waiter (snd x) = p) xs)"
  by (induction xs) (auto simp add: closedRejection_def)

subsection \<open>coupled\<close>

lemma coupled_timers_gone:
  "coupled s \<Longrightarrow> filter (\<lambda>c. fst c \<notin> (timeout \<circ> snd) ` set (pendingRequests s)) (timers s) = []"
proof -
  assume c: "coupled s"
  have "\<forall>c \<in> set (timers s). fst c \<in> (timeout \<circ> snd) ` set (pendingRequests s)"
  proof
    fix c assume "c \<in> set (timers s)"
    with \<open>coupled s\<close> have "map_of (pendingRequests s) (requestId (snd c)) =
        Some \<lparr>waiter = rejects (snd c), timeout = fst c\<rparr>"
      by (simp add: coupled_def)
    then have "(requestId (snd c), \<lparr>waiter = rejects (snd c), timeout = fst c\<rparr>) \<in> set (pendingRequests s)"
      by (rule map_of_SomeD)
    then show "fst c \<in> (timeout \<circ> snd) ` set (pendingRequests s)"
      by force
  qed
  then show ?thesis by (simp add: filter_empty_conv)
qed

lemma coupled_disconnect: "coupled s \<Longrightarrow> coupled (disconnect s)"
proof (cases "ws s")
  case None
  then show "coupled s \<Longrightarrow> coupled (disconnect s)" by (simp add: disconnect_None)
next
  case (Some h)
  assume "coupled s"
  then have "timers (disconnect s) = []"
    using Some coupled_timers_gone [of s] by (simp add: disconnect_timers comp_def)
  moreover have "pendingRequests (disconnect s) = []"
    using Some by (simp add: disconnect_pending)
  ultimately show "coupled (disconnect s)" by (simp add: coupled_def)
qed

lemma coupled_cong:
  "pendingRequests s' = pendingRequests s \<Longrightarrow> timers s' = timers s \<Longrightarrow> coupled s' = coupled s"
  by (simp add: coupled_def)

lemma coupled_connect_begin: "coupled s \<Longrightarrow> coupled (connect_begin n s)"
  using coupled_disconnect [of s]
  by (auto simp add: coupled_def connect_begin_fields)

lemma coupled_setReadyState: "coupled s \<Longrightarrow> coupled (setReadyState rs s)"
  by (simp add: coupled_def)

lemma coupled_connect_end: "coupled s \<Longrightarrow> coupled (snd (connect_end oc s))"
  by (cases oc) (simp_all add: connect_end_def coupled_setReadyState coupled_disconnect)

lemma coupled_connect: "coupled s \<Longrightarrow> coupled (snd (connect n oc s))"
  by (simp add: connect_def coupled_connect_end coupled_connect_begin)

lemma coupled_start: "coupled s \<Longrightarrow> coupled (start n oc s)"
  using coupled_connect [of s n oc]
  by (auto simp add: start_def coupled_disconnect split: prod.splits option.splits)

lemma coupled_reconnect: "coupled s \<Longrightarrow> coupled (reconnect s)"
  using coupled_disconnect [of s]
  by (simp add: coupled_def reconnect_fields)


lemma coupled_remove:
  assumes c: "coupled s" and m: "(k, e) \<in> set (pendingRequests s)"
  shows "coupled (settle q oc (deletePending k (clearTimeout (timeout e) s)))"
proof -
  define s' where "s' = settle q oc (deletePending k (clearTimeout (timeout e) s))"
  have P: "pendingRequests s' = AList.delete k (pendingRequests s)"
    and T: "timers s' = AList.delete (timeout e) (timers s)"
    by (simp_all add: s'_def settle_def deletePending_def clearTimeout_def)
  from c have d1: "distinct (map fst (pendingRequests s))" and d2: "distinct (map fst (timers s))"
    and t1: "\<And>x. x \<in> set (pendingRequests s) \<Longrightarrow> map_of (timers s) (timeout (snd x)) =
           Some \<lparr>delay = REQUEST_TIMEOUT, requestId = fst x, rejects = waiter (snd x)\<rparr>"
    and t2: "\<And>c. c \<in> set (timers s) \<Longrightarrow> map_of (pendingRequests s) (requestId (snd c)) =
           Some \<lparr>waiter = rejects (snd c), timeout = fst c\<rparr>"
    by (simp_all add: coupled_def)
  from d1 m have mk: "map_of (pendingRequests s) k = Some e" by simp
  have "\<forall>x \<in> set (pendingRequests s'). map_of (timers s') (timeout (snd x)) =
           Some \<lparr>delay = REQUEST_TIMEOUT, requestId = fst x, rejects = waiter (snd x)\<rparr>"
  proof
    fix x assume "x \<in> set (pendingRequests s')"
    then have x: "x \<in> set (pendingRequests s)" "fst x \<noteq> k"
      by (auto simp add: P AList.delete_eq)
    have "timeout (snd x) \<noteq> timeout e"
    proof
      assume "timeout (snd x) = timeout e"
      with t1 [OF x(1)] t1 [OF m] have "fst x = k" by simp
      with x show False by simp
    qed
    with t1 [OF x(1)] show "map_of (timers s') (timeout (snd x)) =
           Some \<lparr>delay = REQUEST_TIMEOUT, requestId = fst x, rejects = waiter (snd x)\<rparr>"
      by (simp add: T)
  qed
  moreover have "\<forall>c \<in> set (timers s'). map_of (pendingRequests s') (requestId (snd c)) =
           Some \<lparr>waiter = rejects (snd c), timeout = fst c\<rparr>"
  proof
    fix c assume "c \<in> set (timers s')"
    then have c: "c \<in> set (timers s)" "fst c \<noteq> timeout e"
      by (auto simp add: T AList.delete_eq)
    have "requestId (snd c) \<noteq> k"
    proof
      assume "requestId (snd c) = k"
      with t2 [OF c(1)] mk have "timeout e = fst c" by auto
      with c show False by simp
    qed
    with t2 [OF c(1)] show "map_of (pendingRequests s') (requestId (snd c)) =
           Some \<lparr>waiter = rejects (snd c), timeout = fst c\<rparr>"
      by (simp add: P)
  qed
  moreover have "distinct (map fst (pendingRequests s'))" "distinct (map fst (timers s'))"
    using d1 d2 by (simp_all add: P T AList.distinct_delete)
  ultimately show ?thesis unfolding s'_def [symmetric] coupled_def by blast
qed

lemma coupled_handleMessage: "coupled s \<Longrightarrow> coupled (handleMessage parsed s)"
  using handleMessage_cases [of parsed s]
  by (auto simp add: coupled_remove dest!: map_of_SomeD)

lemma coupled_timerFire: "coupled s \<Longrightarrow> coupled (timerFire t s)"
proof (cases "map_of (timers s) t")
  case None
  then show "coupled s \<Longrightarrow> coupled (timerFire t s)" by (simp add: timerFire_def)
next
  case (Some c)
  assume cp: "coupled s"
  from Some have tc: "(t, c) \<in> set (timers s)" by (rule map_of_SomeD)
  with cp have e: "map_of (pendingRequests s) (requestId c) = Some \<lparr>waiter = rejects c, timeout = t\<rparr>"
    by (fastforce simp add: coupled_def)
  then have m: "(requestId c, \<lparr>waiter = rejects c, timeout = t\<rparr>) \<in> set (pendingRequests s)"
    by (rule map_of_SomeD)
  have "coupled (settle (rejects c) (Rejected (mkError TIMEOUT ''Request timed out''))
          (deletePending (requestId c) (clearTimeout (timeout \<lparr>waiter = rejects c, timeout = t\<rparr>) s)))"
    using cp m by (rule coupled_remove)
  then have "coupled (reconnect (settle (rejects c) (Rejected (mkError TIMEOUT ''Request timed out''))
          (deletePending (requestId c) (clearTimeout t s))))"
    by (simp add: coupled_reconnect)
  moreover have "has (requestId c) (clearTimeout t s)" using e by (simp add: has_def clearTimeout_def)
  ultimately show "coupled (timerFire t s)"
    by (simp add: timerFire_def Some requestTimedOut_def)
qed


lemma coupled_registered:
  assumes c: "coupled s" and i: "consistent s" and fresh: "\<not> has (mid m) s"
  shows "coupled (registered m s)"
proof -
  define k where "k = mid m"
  define e where "e = \<lparr>waiter = nextWaiter s, timeout = nextTimer s\<rparr>"
  define c0 where "c0 = \<lparr>delay = REQUEST_TIMEOUT, requestId = k, rejects = nextWaiter s\<rparr>"
  from c have d1: "distinct (map fst (pendingRequests s))" and d2: "distinct (map fst (timers s))"
    and t1: "\<And>x. x \<in> set (pendingRequests s) \<Longrightarrow> map_of (timers s) (timeout (snd x)) =
           Some \<lparr>delay = REQUEST_TIMEOUT, requestId = fst x, rejects = waiter (snd x)\<rparr>"
    and t2: "\<And>c. c \<in> set (timers s) \<Longrightarrow> map_of (pendingRequests s) (requestId (snd c)) =
           Some \<lparr>waiter = rejects (snd c), timeout = fst c\<rparr>"
    by (simp_all add: coupled_def)
  have kf: "k \<notin> fst ` set (pendingRequests s)"
    using fresh by (simp add: has_def k_def map_of_eq_None_iff)
  have tf: "nextTimer s \<notin> fst ` set (timers s)"
    using i by (fastforce simp add: consistent_def)
  have P: "pendingRequests (registered m s) = pendingRequests s @ [(k, e)]"
    using kf by (simp add: registered_def update_fresh k_def e_def)
  have T: "timers (registered m s) = timers s @ [(nextTimer s, c0)]"
    using tf by (simp add: registered_def update_fresh k_def c0_def)
  have MP: "map_of (pendingRequests (registered m s)) = (map_of (pendingRequests s))(k \<mapsto> e)"
    by (simp add: registered_def AList.update_conv' k_def e_def)
  have MT: "map_of (timers (registered m s)) = (map_of (timers s))(nextTimer s \<mapsto> c0)"
    by (simp add: registered_def AList.update_conv' k_def c0_def)
  have told: "\<And>x. x \<in> set (pendingRequests s) \<Longrightarrow> timeout (snd x) \<noteq> nextTimer s"
    using i by (fastforce simp add: consistent_def)
  have kold: "\<And>c. c \<in> set (timers s) \<Longrightarrow> requestId (snd c) \<noteq> k"
  proof
    fix c assume "c \<in> set (timers s)" and "requestId (snd c) = k"
    with t2 [of c] have "map_of (pendingRequests s) k \<noteq> None" by simp
    with fresh show False by (simp add: has_def k_def)
  qed
  have "\<forall>x \<in> set (pendingRequests (registered m s)).
          map_of (timers (registered m s)) (timeout (snd x)) =
            Some \<lparr>delay = REQUEST_TIMEOUT, requestId = fst x, rejects = waiter (snd x)\<rparr>"
  proof
    fix x assume "x \<in> set (pendingRequests (registered m s))"
    then have "x = (k, e) \<or> x \<in> set (pendingRequests s)" by (auto simp add: P)
    then show "map_of (timers (registered m s)) (timeout (snd x)) =
            Some \<lparr>delay = REQUEST_TIMEOUT, requestId = fst x, rejects = waiter (snd x)\<rparr>"
    proof
      assume "x = (k, e)"
      then show ?thesis
        by (simp add: MT e_def c0_def)
    next
      assume x: "x \<in> set (pendingRequests s)"
      from t1 [OF x] told [OF x] show ?thesis by (simp add: MT)
    qed
  qed
  moreover have "\<forall>c \<in> set (timers (registered m s)).
          map_of (pendingRequests (registered m s)) (requestId (snd c)) =
            Some \<lparr>waiter = rejects (snd c), timeout = fst c\<rparr>"
  proof
    fix c assume "c \<in> set (timers (registered m s))"
    then have "c = (nextTimer s, c0) \<or> c \<in> set (timers s)" by (auto simp add: T)
    then show "map_of (pendingRequests (registered m s)) (requestId (snd c)) =
            Some \<lparr>waiter = rejects (snd c), timeout = fst c\<rparr>"
    proof
      assume "c = (nextTimer s, c0)"
      then show ?thesis
        by (simp add: MP e_def c0_def)
    next
      assume c: "c \<in> set (timers s)"
      from t2 [OF c] kold [OF c] show ?thesis by (simp add: MP)
    qed
  qed
  moreover have "distinct (map fst (pendingRequests (registered m s)))"
    "distinct (map fst (timers (registered m s)))"
    using d1 d2 kf tf by (simp_all add: P T)
  ultimately show ?thesis unfolding coupled_def by blast
qed


lemma registered_entry:
  "(mid m, \<lparr>waiter = nextWaiter s, timeout = nextTimer s\<rparr>) \<in> set (pendingRequests (registered m s))"
proof -
  have "map_of (pendingRequests (registered m s)) (mid m) =
      Some \<lparr>waiter = nextWaiter s, timeout = nextTimer s\<rparr>"
    by (simp add: registered_def AList.update_conv')
  then show ?thesis by (rule map_of_SomeD)
qed

lemma coupled_sendRequest_exec:
  assumes c: "coupled s" and i: "consistent s" and fresh: "\<not> has (mid m) s"
  shows "coupled (snd (sendRequest_exec m e s))"
proof (cases "isConnected s")
  case False
  with c show ?thesis
    by (simp add: sendRequest_exec_not_connected coupled_def settle_def)
next
  case True
  have r: "coupled (registered m s)" using c i fresh by (rule coupled_registered)
  show ?thesis
  proof (cases e)
    case None
    with True r show ?thesis by (simp add: sendRequest_exec_sent coupled_def)
  next
    case (Some msg)
    have "coupled (settle (nextWaiter s) (Rejected (mkError CONNECTION (''Send failed: '' @ msg)))
        (deletePending (mid m)
          (clearTimeout (timeout \<lparr>waiter = nextWaiter s, timeout = nextTimer s\<rparr>) (registered m s))))"
      using r registered_entry by (rule coupled_remove)
    with True Some show ?thesis by (simp add: sendRequest_exec_failed)
  qed
qed

lemma has_afterConnect: "\<not> has k s \<Longrightarrow> \<not> has k (afterConnect s)"
  by (simp add: afterConnect_def has_def connect_begin_fields disconnect_pending)

lemma coupled_afterConnect: "coupled s \<Longrightarrow> coupled (afterConnect s)"
  by (simp add: afterConnect_def coupled_setReadyState coupled_connect_begin)

lemma coupled_sendRequest:
  assumes c: "coupled s" and i: "consistent s" and fresh: "\<not> has (requestIdOf r u) s"
  shows "coupled (snd (sendRequest r u oc e s))"
proof (cases "\<not> isConnected s \<and> oc \<noteq> Opened")
  case True
  have "coupled (disconnect (connect_begin None s))"
    using c by (intro coupled_disconnect coupled_connect_begin)
  with True show ?thesis
    by (simp add: sendRequest_connect_failed coupled_def settle_def)
next
  case False
  then have pr: "isConnected s \<or> oc = Opened" by blast
  show ?thesis
    unfolding sendRequest_proceeds [OF pr]
    using c i fresh
    by (intro coupled_sendRequest_exec coupled_afterConnect consistent_afterConnect)
       (simp_all add: has_afterConnect)
qed

lemma coupled_rejectNew: "coupled s \<Longrightarrow> coupled (snd (rejectNew e s))"
  by (simp add: rejectNew_def coupled_def settle_def)

lemma coupled_foldl:
  "coupled s \<Longrightarrow> consistent s \<Longrightarrow> noReuseFrom s evs \<Longrightarrow> coupled (foldl step s evs)"
proof (induction evs arbitrary: s)
  case Nil
  then show ?case by simp
next
  case (Cons ev evs)
  have i': "consistent (step s ev)" using Cons.prems(2) by (rule consistent_step)
  have c': "coupled (step s ev)" and n': "noReuseFrom (step s ev) evs"
    using Cons.prems
    by (cases ev; simp add: coupled_start coupled_sendRequest coupled_handleMessage
        coupled_timerFire coupled_disconnect coupled_setReadyState coupled_connect_begin
        coupled_sendRequest_exec coupled_rejectNew)+
  from Cons.IH [OF c' i' n'] show ?case by simp
qed

lemma coupled_new: "coupled newMcpUnity"
  by (simp add: coupled_def newMcpUnity_def)

lemma coupled_run: "noReuse evs \<Longrightarrow> coupled (run evs)"
  unfolding run_def noReuse_def
  using coupled_new consistent_new by (rule coupled_foldl)

subsection \<open>accounted\<close>

lemma received_settle:
  "length (outcomesOf p (settle q oc s)) = length (outcomesOf p s) + (if q = p then 1 else 0)"
  by (simp add: outcomesOf_def settle_def)

lemma outcomesOf_closed:
  "outcomesOf p (s\<lparr>settled := settled s @ map closedRejection xs\<rparr>) =
   outcomesOf p s @
   replicate (length (filter (\<lambda>x. waiter (snd x) = p) xs))
     (Rejected (mkError CONNECTION ''Connection closed''))"
  by (induction xs rule: rev_induct) (simp_all add: outcomesOf_def closedRejection_def replicate_append_same)

lemma outcomesOf_disconnect:
  "outcomesOf p (disconnect s) =
   (if ws s = None then outcomesOf p s
    else outcomesOf p s @
         replicate (waiting p s) (Rejected (mkError CONNECTION ''Connection closed'')))"
proof -
  have "outcomesOf p (disconnect s) = map snd (filter (\<lambda>x. fst x = p) (settled (disconnect s)))"
    by (simp add: outcomesOf_def)
  also have "\<dots> = (if ws s = None then outcomesOf p s
    else outcomesOf p (s\<lparr>settled := settled s @ map closedRejection (pendingRequests s)\<rparr>))"
    by (simp add: disconnect_settled outcomesOf_def)
  finally show ?thesis by (simp add: outcomesOf_closed waiting_def)
qed

lemma waiting_disconnect:
  "waiting p (disconnect s) = (if ws s = None then waiting p s else 0)"
  by (simp add: waiting_def disconnect_pending)






















subsection \<open>Evaluating the scenarios\<close>

lemmas op_defs = rejectNew_def start_def connect_def connect_begin_def connect_end_def
  setReadyState_def disconnect_def closeCall_def orEmpty_def isConnected_def sendRequest_def
  sendRequest_exec_def requestIdOf_def settle_def deletePending_def clearTimeout_def
  handleMessage_def handleMessage_try_def timerFire_def requestTimedOut_def reconnect_def
  has_def mkError_def js_or_def field_def REQUEST_TIMEOUT_def closedRejection_def Let_def
  AList.delete_eq

lemmas model_defs = run_def newMcpUnity_def op_defs

lemma run_twoPending:
  "run twoPending =
     \<lparr>ws = Some \<lparr>readyState = OPEN, xClientName = ''Cursor'', origin = ''Cursor''\<rparr>,
      pendingRequests = [(''A'', \<lparr>waiter = 0, timeout = 0\<rparr>), (''B'', \<lparr>waiter = 1, timeout = 1\<rparr>)],
      timers = [(0, \<lparr>delay = 10000, requestId = ''A'', rejects = 0\<rparr>),
                (1, \<lparr>delay = 10000, requestId = ''B'', rejects = 1\<rparr>)],
      settled = [],
      sent = [\<lparr>mid = ''A'', mmethod = ''get_console_logs'', mparams = JObj [(''limit'', JNum 50)]\<rparr>,
              \<lparr>mid = ''B'', mmethod = ''get_console_logs'', mparams = JObj [(''limit'', JNum 50)]\<rparr>],
      wsCalls = [], connects = 1, reconnects = 0, nextWaiter = 2, nextTimer = 2\<rparr>"
  by (simp add: twoPending_def logsRequest_def model_defs)


lemma run_reusedId:
  "run reusedId =
     \<lparr>ws = Some \<lparr>readyState = OPEN, xClientName = [], origin = []\<rparr>,
      pendingRequests = [(''X'', \<lparr>waiter = 1, timeout = 1\<rparr>)],
      timers = [(0, \<lparr>delay = 10000, requestId = ''X'', rejects = 0\<rparr>),
                (1, \<lparr>delay = 10000, requestId = ''X'', rejects = 1\<rparr>)],
      settled = [],
      sent = [\<lparr>mid = ''X'', mmethod = ''get_console_logs'', mparams = JObj [(''limit'', JNum 50)]\<rparr>,
              \<lparr>mid = ''X'', mmethod = ''get_console_logs'', mparams = JObj [(''limit'', JNum 50)]\<rparr>],
      wsCalls = [], connects = 1, reconnects = 0, nextWaiter = 2, nextTimer = 2\<rparr>"
  by (simp add: reusedId_def logsRequest_def model_defs)

lemma run_snoc: "run (evs @ [ev]) = step (run evs) ev"
  by (simp add: run_def)

lemma run_reusedId_reply:
  "run (reusedId @ [replyX]) =
     \<lparr>ws = Some \<lparr>readyState = OPEN, xClientName = [], origin = []\<rparr>,
      pendingRequests = [],
      timers = [(0, \<lparr>delay = 10000, requestId = ''X'', rejects = 0\<rparr>)],
      settled = [(1, Resolved (JObj [(''success'', JBool True)]))],
      sent = [\<lparr>mid = ''X'', mmethod = ''get_console_logs'', mparams = JObj [(''limit'', JNum 50)]\<rparr>,
              \<lparr>mid = ''X'', mmethod = ''get_console_logs'', mparams = JObj [(''limit'', JNum 50)]\<rparr>],
      wsCalls = [], connects = 1, reconnects = 0, nextWaiter = 2, nextTimer = 2\<rparr>"
  by (simp add: run_snoc run_reusedId replyX_def op_defs)

lemma run_reusedId_reply_timer:
  "run (reusedId @ [replyX, TimerFire 0]) =
     \<lparr>ws = Some \<lparr>readyState = CONNECTING, xClientName = [], origin = []\<rparr>,
      pendingRequests = [],
      timers = [],
      settled = [(1, Resolved (JObj [(''success'', JBool True)]))],
      sent = [\<lparr>mid = ''X'', mmethod = ''get_console_logs'', mparams = JObj [(''limit'', JNum 50)]\<rparr>,
              \<lparr>mid = ''X'', mmethod = ''get_console_logs'', mparams = JObj [(''limit'', JNum 50)]\<rparr>],
      wsCalls = [Close], connects = 2, reconnects = 1, nextWaiter = 2, nextTimer = 2\<rparr>"
  using run_snoc [of "reusedId @ [replyX]" "TimerFire 0"]
  by (simp add: run_reusedId_reply op_defs)

lemma noReuse_twoPending: "noReuse twoPending"
  by (simp add: noReuse_def twoPending_def logsRequest_def newMcpUnity_def op_defs)

subsection \<open>orphaned\<close>

lemma orphaned_cong:
  "pendingRequests s' = pendingRequests s \<Longrightarrow> settled s' = settled s \<Longrightarrow>
   timers s' = timers s \<Longrightarrow> nextWaiter s' = nextWaiter s \<Longrightarrow> orphaned p s' = orphaned p s"
  by (simp add: orphaned_def outcomesOf_def waiting_def)

lemma orphaned_disconnect: "orphaned p s \<Longrightarrow> orphaned p (disconnect s)"
  by (cases "ws s")
     (auto simp add: orphaned_def outcomesOf_disconnect waiting_disconnect disconnect_timers)

lemma orphaned_connect_begin: "orphaned p s \<Longrightarrow> orphaned p (connect_begin n s)"
proof (cases "isConnected s")
  case True
  then show "orphaned p s \<Longrightarrow> orphaned p (connect_begin n s)" by (simp add: connect_begin_def)
next
  case False
  assume "orphaned p s"
  then have "orphaned p (disconnect s)" by (rule orphaned_disconnect)
  moreover have "orphaned p (connect_begin n s) = orphaned p (disconnect s)"
    using False by (intro orphaned_cong) (simp_all add: connect_begin_fields)
  ultimately show "orphaned p (connect_begin n s)" by simp
qed

lemma orphaned_setReadyState: "orphaned p s \<Longrightarrow> orphaned p (setReadyState rs s)"
  by (simp add: orphaned_cong [of "setReadyState rs s" s])

lemma orphaned_connect_end: "orphaned p s \<Longrightarrow> orphaned p (snd (connect_end oc s))"
  by (cases oc) (simp_all add: connect_end_def orphaned_setReadyState orphaned_disconnect)

lemma orphaned_connect: "orphaned p s \<Longrightarrow> orphaned p (snd (connect n oc s))"
  by (simp add: connect_def orphaned_connect_end orphaned_connect_begin)

lemma orphaned_start: "orphaned p s \<Longrightarrow> orphaned p (start n oc s)"
  using orphaned_connect [of p s n oc]
  by (auto simp add: start_def orphaned_disconnect split: prod.splits option.splits)

lemma orphaned_reconnect: "orphaned p s \<Longrightarrow> orphaned p (reconnect s)"
proof -
  assume "orphaned p s"
  then have "orphaned p (disconnect s)" by (rule orphaned_disconnect)
  moreover have "orphaned p (reconnect s) = orphaned p (disconnect s)"
    by (intro orphaned_cong) (simp_all add: reconnect_fields)
  ultimately show ?thesis by simp
qed

lemma orphaned_afterConnect: "orphaned p s \<Longrightarrow> orphaned p (afterConnect s)"
  by (simp add: afterConnect_def orphaned_setReadyState orphaned_connect_begin)

lemma orphaned_settle_other:
  "orphaned p s \<Longrightarrow> q \<noteq> p \<Longrightarrow> orphaned p (settle q oc (deletePending k (clearTimeout t s)))"
  by (auto simp add: orphaned_def outcomesOf_def waiting_def settle_def deletePending_def
      clearTimeout_def AList.delete_eq filter_empty_conv)

lemma orphaned_not_waiter:
  "orphaned p s \<Longrightarrow> map_of (pendingRequests s) k = Some e \<Longrightarrow> waiter e \<noteq> p"
  by (fastforce simp add: orphaned_def waiting_def filter_empty_conv dest!: map_of_SomeD)

lemma orphaned_handleMessage: "orphaned p s \<Longrightarrow> orphaned p (handleMessage parsed s)"
  using handleMessage_cases [of parsed s]
  by (auto simp add: orphaned_settle_other orphaned_not_waiter)

lemma orphaned_timerFire: "orphaned p s \<Longrightarrow> orphaned p (timerFire t s)"
proof (cases "map_of (timers s) t")
  case None
  then show "orphaned p s \<Longrightarrow> orphaned p (timerFire t s)" by (simp add: timerFire_def)
next
  case (Some c)
  assume o: "orphaned p s"
  from Some have "(t, c) \<in> set (timers s)" by (rule map_of_SomeD)
  with o have ne: "rejects c \<noteq> p" by (auto simp add: orphaned_def)
  have o1: "orphaned p (clearTimeout t s)"
    using o by (auto simp add: orphaned_def outcomesOf_def waiting_def clearTimeout_def AList.delete_eq)
  have "orphaned p (settle (rejects c) (Rejected (mkError TIMEOUT ''Request timed out''))
          (deletePending (requestId c) (clearTimeout t s)))"
    using o ne by (rule orphaned_settle_other)
  with o1 show "orphaned p (timerFire t s)"
    by (simp add: timerFire_def Some requestTimedOut_def orphaned_reconnect)
qed

lemma orphaned_fresh_settle:
  "orphaned p s \<Longrightarrow> orphaned p (settle (nextWaiter s) oc (s\<lparr>nextWaiter := nextWaiter s + 1\<rparr>))"
  by (auto simp add: orphaned_def outcomesOf_def waiting_def settle_def)

lemma orphaned_registered: "orphaned p s \<Longrightarrow> orphaned p (registered m s)"
proof -
  assume o: "orphaned p s"
  have sub1: "set (pendingRequests (registered m s)) \<subseteq>
      insert (mid m, \<lparr>waiter = nextWaiter s, timeout = nextTimer s\<rparr>) (set (pendingRequests s))"
    by (simp add: registered_def set_update_subset)
  have sub2: "set (timers (registered m s)) \<subseteq>
      insert (nextTimer s, \<lparr>delay = REQUEST_TIMEOUT, requestId = mid m, rejects = nextWaiter s\<rparr>)
        (set (timers s))"
    by (simp add: registered_def set_update_subset)
  have "waiting p (registered m s) = 0"
    using o sub1 by (fastforce simp add: orphaned_def waiting_def filter_empty_conv)
  moreover have "\<forall>c \<in> set (timers (registered m s)). rejects (snd c) \<noteq> p"
    using o sub2 by (fastforce simp add: orphaned_def)
  moreover have "outcomesOf p (registered m s) = []" "p < nextWaiter (registered m s)"
    using o by (simp_all add: orphaned_def outcomesOf_def registered_def)
  ultimately show ?thesis by (simp add: orphaned_def)
qed

lemma orphaned_sendRequest_exec: "orphaned p s \<Longrightarrow> orphaned p (snd (sendRequest_exec m e s))"
proof (cases "isConnected s")
  case False
  then show "orphaned p s \<Longrightarrow> orphaned p (snd (sendRequest_exec m e s))"
    using orphaned_fresh_settle [of p s "Rejected (mkError CONNECTION ''Not connected to Unity'')"]
    by (simp add: sendRequest_exec_not_connected)
next
  case True
  assume o: "orphaned p s"
  then have r: "orphaned p (registered m s)" by (rule orphaned_registered)
  from o have ne: "nextWaiter s \<noteq> p" by (simp add: orphaned_def)
  show "orphaned p (snd (sendRequest_exec m e s))"
  proof (cases e)
    case None
    have "orphaned p ((registered m s)\<lparr>sent := sent s @ [m]\<rparr>) = orphaned p (registered m s)"
      by (intro orphaned_cong) simp_all
    with True None r show ?thesis by (simp add: sendRequest_exec_sent)
  next
    case (Some msg)
    with True orphaned_settle_other [OF r ne] show ?thesis
      by (simp add: sendRequest_exec_failed)
  qed
qed

lemma orphaned_sendRequest: "orphaned p s \<Longrightarrow> orphaned p (snd (sendRequest r u oc e s))"
proof (cases "\<not> isConnected s \<and> oc \<noteq> Opened")
  case True
  assume "orphaned p s"
  then have "orphaned p (disconnect (connect_begin None s))"
    by (intro orphaned_disconnect orphaned_connect_begin)
  from orphaned_fresh_settle [OF this, of "Rejected (connectError oc)"] True
  show "orphaned p (snd (sendRequest r u oc e s))"
    by (simp add: sendRequest_connect_failed connect_begin_fields)
next
  case False
  then have pr: "isConnected s \<or> oc = Opened" by blast
  assume "orphaned p s"
  then show "orphaned p (snd (sendRequest r u oc e s))"
    unfolding sendRequest_proceeds [OF pr]
    by (intro orphaned_sendRequest_exec orphaned_afterConnect)
qed

lemma orphaned_rejectNew: "orphaned p s \<Longrightarrow> orphaned p (snd (rejectNew e s))"
  using orphaned_fresh_settle [of p s "Rejected e"] by (simp add: rejectNew_def)

lemma orphaned_step: "orphaned p s \<Longrightarrow> orphaned p (step s ev)"
  by (cases ev)
     (simp_all add: orphaned_start orphaned_sendRequest orphaned_handleMessage orphaned_timerFire
        orphaned_disconnect orphaned_setReadyState orphaned_connect_begin
        orphaned_sendRequest_exec orphaned_rejectNew)

lemma orphaned_foldl: "orphaned p s \<Longrightarrow> orphaned p (foldl step s evs)"
  by (induction evs arbitrary: s) (simp_all add: orphaned_step)

lemma run_append: "run (evs @ evs') = foldl step (run evs) evs'"
  by (simp add: run_def)

text \<open>
  After the reply for "X" and the firing of timer 0, the promise of the first request under
  "X" is never called, whatever happens next.
\<close>

lemma reused_identifier_pending_forever:
  "outcomesOf 0 (run (reusedId @ [replyX, TimerFire 0] @ evs)) = []"
proof -
  have "orphaned 0 (run (reusedId @ [replyX, TimerFire 0]))"
    by (simp add: run_reusedId_reply_timer orphaned_def outcomesOf_def waiting_def)
  then have "orphaned 0 (foldl step (run (reusedId @ [replyX, TimerFire 0])) evs)"
    by (rule orphaned_foldl)
  then show ?thesis by (simp add: run_append [symmetric] orphaned_def)
qed

subsection \<open>Settling a pending promise\<close>



lemma run_reusedId_timer:
  "run (reusedId @ [TimerFire 0]) =
     \<lparr>ws = Some \<lparr>readyState = CONNECTING, xClientName = [], origin = []\<rparr>,
      pendingRequests = [],
      timers = [(1, \<lparr>delay = 10000, requestId = ''X'', rejects = 1\<rparr>)],
      settled = [(0, Rejected (mkError TIMEOUT ''Request timed out''))],
      sent = [\<lparr>mid = ''X'', mmethod = ''get_console_logs'', mparams = JObj [(''limit'', JNum 50)]\<rparr>,
              \<lparr>mid = ''X'', mmethod = ''get_console_logs'', mparams = JObj [(''limit'', JNum 50)]\<rparr>],
      wsCalls = [Close], connects = 2, reconnects = 1, nextWaiter = 2, nextTimer = 2\<rparr>"
  by (simp add: run_snoc run_reusedId op_defs)

section \<open>The claims\<close>

subsection \<open>C1: every promise is settled exactly once\<close>




subsection \<open>C2: what a failing request does to the others\<close>

text \<open>
  C2 as stated fails for the Timeout case. With "A" and "B" pending, the timer of "A"
  fires: its callback rejects the caller of "A" and then calls \<^verbatim>\<open>reconnect\<close>, whose
  \<^verbatim>\<open>disconnect\<close> removes the entry of "B", cancels the timer of "B" and rejects the
  caller of "B" with "Connection closed".
\<close>

theorem timeout_rejects_others_counterexample:
  "map_of (pendingRequests (run twoPending)) ''B'' = Some \<lparr>waiter = 1, timeout = 1\<rparr> \<and>
   map_of (timers (run twoPending)) 1 = Some \<lparr>delay = 10000, requestId = ''B'', rejects = 1\<rparr> \<and>
   map_of (timers (run twoPending)) 0 = Some \<lparr>delay = 10000, requestId = ''A'', rejects = 0\<rparr> \<and>
   map_of (pendingRequests (timerFire 0 (run twoPending))) ''B'' = None \<and>
   map_of (timers (timerFire 0 (run twoPending))) 1 = None \<and>
   settled (timerFire 0 (run twoPending)) =
     [(0, Rejected (mkError TIMEOUT ''Request timed out'')),
      (1, Rejected (mkError CONNECTION ''Connection closed''))]"
  by (simp add: run_twoPending op_defs)

text \<open>
  C2 (amended). An error reply for a pending identifier removes that identifier's entry,
  cancels that entry's timer and rejects that entry's waiter with a ToolExecution error,
  and changes nothing else in the table, the timers or the calls made to waiters. A send
  that throws on an open connection removes the identifier of the request being sent,
  disarms the timer just armed and rejects the caller with a Connection error, and changes
  nothing else. A request timer that fires for an identifier still in the table, while a
  socket is held, rejects its own caller with Timeout and then, through \<^verbatim>\<open>reconnect\<close>,
  rejects every other pending waiter with "Connection closed", cancels their timers and
  leaves the table empty.
\<close>

theorem failure_frame:
  "(field kvs ''id'' = JStr k \<and> k \<noteq> [] \<and> map_of (pendingRequests s) k = Some request \<and>
    truthy (field kvs ''error'') \<longrightarrow>
      pendingRequests (handleMessage (Some (JObj kvs)) s) = AList.delete k (pendingRequests s) \<and>
      timers (handleMessage (Some (JObj kvs)) s) = AList.delete (timeout request) (timers s) \<and>
      settled (handleMessage (Some (JObj kvs)) s) =
        settled s @
        [(waiter request,
          Rejected \<lparr>etype = TOOL_EXECUTION,
                    emessage = js_or (propOf (field kvs ''error'') ''message'') (JStr ''Unknown error''),
                    edetails = propOf (field kvs ''error'') ''details''\<rparr>)]) \<and>
   (isConnected s \<longrightarrow>
      pendingRequests (snd (sendRequest r u oc (Some e) s)) =
        AList.delete (requestIdOf r u) (pendingRequests s) \<and>
      timers (snd (sendRequest r u oc (Some e) s)) = AList.delete (nextTimer s) (timers s) \<and>
      settled (snd (sendRequest r u oc (Some e) s)) =
        settled s @ [(nextWaiter s, Rejected (mkError CONNECTION (''Send failed: '' @ e)))]) \<and>
   (map_of (timers s) t = Some c \<and> has (requestId c) s \<and> ws s \<noteq> None \<longrightarrow>
      pendingRequests (timerFire t s) = [] \<and>
      settled (timerFire t s) =
        settled s @
        (rejects c, Rejected (mkError TIMEOUT ''Request timed out'')) #
        map closedRejection (AList.delete (requestId c) (pendingRequests s)) \<and>
      (\<forall>x \<in> set (AList.delete (requestId c) (pendingRequests s)).
         map_of (timers (timerFire t s)) (timeout (snd x)) = None))"
proof (intro conjI impI)
  assume a: "field kvs ''id'' = JStr k \<and> k \<noteq> [] \<and> map_of (pendingRequests s) k = Some request \<and>
    truthy (field kvs ''error'')"
  then have h: "handleMessage (Some (JObj kvs)) s =
     settle (waiter request)
       (Rejected \<lparr>etype = TOOL_EXECUTION,
                 emessage = js_or (propOf (field kvs ''error'') ''message'') (JStr ''Unknown error''),
                 edetails = propOf (field kvs ''error'') ''details''\<rparr>)
       (deletePending k (clearTimeout (timeout request) s))"
    by (cases "field kvs ''error''")
       (simp_all add: handleMessage_def handleMessage_try_def propOf_def Let_def)
  show "pendingRequests (handleMessage (Some (JObj kvs)) s) = AList.delete k (pendingRequests s)"
    "timers (handleMessage (Some (JObj kvs)) s) = AList.delete (timeout request) (timers s)"
    "settled (handleMessage (Some (JObj kvs)) s) =
        settled s @
        [(waiter request,
          Rejected \<lparr>etype = TOOL_EXECUTION,
                    emessage = js_or (propOf (field kvs ''error'') ''message'') (JStr ''Unknown error''),
                    edetails = propOf (field kvs ''error'') ''details''\<rparr>)]"
    unfolding h by (simp_all add: settle_def deletePending_def clearTimeout_def)
next
  assume conn: "isConnected s"
  define m where "m = \<lparr>mid = requestIdOf r u, mmethod = rmethod r, mparams = rparams r\<rparr>"
  have sr: "sendRequest r u oc (Some e) s = sendRequest_exec m (Some e) s"
    using conn by (simp add: sendRequest_def m_def)
  have ex: "snd (sendRequest_exec m (Some e) s) =
     settle (nextWaiter s) (Rejected (mkError CONNECTION (''Send failed: '' @ e)))
        (deletePending (mid m) (clearTimeout (nextTimer s) (registered m s)))"
    using conn by (simp add: sendRequest_exec_failed)
  show "pendingRequests (snd (sendRequest r u oc (Some e) s)) =
        AList.delete (requestIdOf r u) (pendingRequests s)"
    unfolding sr ex
    by (simp add: settle_def deletePending_def clearTimeout_def registered_def
        AList.delete_update_same m_def)
  show "timers (snd (sendRequest r u oc (Some e) s)) = AList.delete (nextTimer s) (timers s)"
    unfolding sr ex
    by (simp add: settle_def deletePending_def clearTimeout_def registered_def
        AList.delete_update_same)
  show "settled (snd (sendRequest r u oc (Some e) s)) =
        settled s @ [(nextWaiter s, Rejected (mkError CONNECTION (''Send failed: '' @ e)))]"
    unfolding sr ex
    by (simp add: settle_def deletePending_def clearTimeout_def registered_def)
next
  assume a: "map_of (timers s) t = Some c \<and> has (requestId c) s \<and> ws s \<noteq> None"
  define s1 where "s1 = settle (rejects c) (Rejected (mkError TIMEOUT ''Request timed out''))
      (deletePending (requestId c) (clearTimeout t s))"
  have fire: "timerFire t s = reconnect s1"
    using a by (simp add: timerFire_def requestTimedOut_def s1_def)
  have f1: "ws s1 \<noteq> None" "pendingRequests s1 = AList.delete (requestId c) (pendingRequests s)"
    "settled s1 = settled s @ [(rejects c, Rejected (mkError TIMEOUT ''Request timed out''))]"
    using a by (simp_all add: s1_def settle_def deletePending_def clearTimeout_def)
  show "pendingRequests (timerFire t s) = []"
    by (simp add: fire reconnect_fields disconnect_pending f1)
  show "settled (timerFire t s) =
        settled s @
        (rejects c, Rejected (mkError TIMEOUT ''Request timed out'')) #
        map closedRejection (AList.delete (requestId c) (pendingRequests s))"
    by (simp add: fire reconnect_fields disconnect_settled f1)
  show "\<forall>x \<in> set (AList.delete (requestId c) (pendingRequests s)).
         map_of (timers (timerFire t s)) (timeout (snd x)) = None"
  proof
    fix x assume "x \<in> set (AList.delete (requestId c) (pendingRequests s))"
    then have "timeout (snd x) \<notin> fst ` set (timers (timerFire t s))"
      by (auto simp add: fire reconnect_fields disconnect_timers f1)
    then show "map_of (timers (timerFire t s)) (timeout (snd x)) = None"
      by (simp add: map_of_eq_None_iff)
  qed
qed

theorem failure_frame_witness:
  "settled (handleMessage
      (Some (JObj [(''id'', JStr ''A''), (''error'', JObj [(''message'', JStr ''boom'')])]))
      (run twoPending)) =
     [(0, Rejected \<lparr>etype = TOOL_EXECUTION, emessage = JStr ''boom'', edetails = JUndefined\<rparr>)] \<and>
   pendingRequests (handleMessage
      (Some (JObj [(''id'', JStr ''A''), (''error'', JObj [(''message'', JStr ''boom'')])]))
      (run twoPending)) = [(''B'', \<lparr>waiter = 1, timeout = 1\<rparr>)] \<and>
   timers (handleMessage
      (Some (JObj [(''id'', JStr ''A''), (''error'', JObj [(''message'', JStr ''boom'')])]))
      (run twoPending)) = [(1, \<lparr>delay = 10000, requestId = ''B'', rejects = 1\<rparr>)] \<and>
   isConnected (run twoPending) \<and>
   pendingRequests (snd (sendRequest (logsRequest ''C'') ''uuid-3'' Opened (Some ''not open'')
      (run twoPending))) = pendingRequests (run twoPending) \<and>
   timers (snd (sendRequest (logsRequest ''C'') ''uuid-3'' Opened (Some ''not open'')
      (run twoPending))) = timers (run twoPending) \<and>
   settled (snd (sendRequest (logsRequest ''C'') ''uuid-3'' Opened (Some ''not open'')
      (run twoPending))) = [(2, Rejected (mkError CONNECTION ''Send failed: not open''))] \<and>
   pendingRequests (timerFire 0 (run twoPending)) = [] \<and>
   settled (timerFire 0 (run twoPending)) =
     [(0, Rejected (mkError TIMEOUT ''Request timed out'')),
      (1, Rejected (mkError CONNECTION ''Connection closed''))] \<and>
   map_of (timers (timerFire 0 (run twoPending))) 1 = None"
  using failure_frame [of "[(''id'', JStr ''A''), (''error'', JObj [(''message'', JStr ''boom'')])]"
      "''A''" "run twoPending" "\<lparr>waiter = 0, timeout = 0\<rparr>" "logsRequest ''C''" "''uuid-3''" Opened
      "''not open''" 0 "\<lparr>delay = 10000, requestId = ''A'', rejects = 0\<rparr>"]
  by (simp add: run_twoPending logsRequest_def propOf_def op_defs)

subsection \<open>C3: the table and the timers\<close>

text \<open>
  C3 as stated fails once an identifier is reused while pending. After the second
  \<^verbatim>\<open>sendRequest\<close> under "X", the entry of the first request has left the table (the
  second replaced it) and its timer 0 is still armed. After the reply for "X", the
  identifier is no longer in the table and timer 0 is still armed for it.
\<close>

theorem reused_identifier_orphans_timer:
  "map_of (pendingRequests (run reusedId)) ''X'' = Some \<lparr>waiter = 1, timeout = 1\<rparr> \<and>
   map_of (timers (run reusedId)) 0 = Some \<lparr>delay = 10000, requestId = ''X'', rejects = 0\<rparr> \<and>
   \<not> has ''X'' (run (reusedId @ [replyX])) \<and>
   map_of (timers (run (reusedId @ [replyX]))) 0 =
     Some \<lparr>delay = 10000, requestId = ''X'', rejects = 0\<rparr>"
  by (simp add: run_reusedId run_reusedId_reply has_def)

text \<open>
  C3 (amended). In every state a run reaches, the keys of the table are distinct and
  deleting a key a second time changes nothing. In every run in which no \<^verbatim>\<open>sendRequest\<close>
  is called with an identifier that is in the table at the time of the call, the entries
  and the timers go together: the timer of every entry is armed (with the delay
  \<^verbatim>\<open>REQUEST_TIMEOUT\<close>, that entry's identifier and that entry's promise), and every armed
  timer has its entry in the table, so no timer is armed for an identifier that has left
  the table.
\<close>

theorem table_and_timers_together:
  "distinct (map fst (pendingRequests (run evs))) \<and>
   deletePending k (deletePending k (run evs)) = deletePending k (run evs) \<and>
   (noReuse evs \<longrightarrow>
      (\<forall>x \<in> set (pendingRequests (run evs)).
         map_of (timers (run evs)) (timeout (snd x)) =
           Some \<lparr>delay = REQUEST_TIMEOUT, requestId = fst x, rejects = waiter (snd x)\<rparr>) \<and>
      (\<forall>c \<in> set (timers (run evs)).
         map_of (pendingRequests (run evs)) (requestId (snd c)) =
           Some \<lparr>waiter = rejects (snd c), timeout = fst c\<rparr>))"
proof -
  have "distinct (map fst (pendingRequests (run evs)))"
    using consistent_run [of evs] by (simp add: consistent_def)
  moreover have "deletePending k (deletePending k (run evs)) = deletePending k (run evs)"
    by (simp add: deletePending_def AList.delete_idem)
  moreover have "noReuse evs \<longrightarrow>
      (\<forall>x \<in> set (pendingRequests (run evs)).
         map_of (timers (run evs)) (timeout (snd x)) =
           Some \<lparr>delay = REQUEST_TIMEOUT, requestId = fst x, rejects = waiter (snd x)\<rparr>) \<and>
      (\<forall>c \<in> set (timers (run evs)).
         map_of (pendingRequests (run evs)) (requestId (snd c)) =
           Some \<lparr>waiter = rejects (snd c), timeout = fst c\<rparr>)"
    using coupled_run [of evs] by (simp add: coupled_def)
  ultimately show ?thesis by blast
qed

theorem table_and_timers_together_witness:
  "noReuse twoPending \<and>
   pendingRequests (run twoPending) =
     [(''A'', \<lparr>waiter = 0, timeout = 0\<rparr>), (''B'', \<lparr>waiter = 1, timeout = 1\<rparr>)] \<and>
   map_of (timers (run twoPending)) 0 = Some \<lparr>delay = 10000, requestId = ''A'', rejects = 0\<rparr> \<and>
   map_of (timers (run twoPending)) 1 = Some \<lparr>delay = 10000, requestId = ''B'', rejects = 1\<rparr> \<and>
   map_of (pendingRequests (run twoPending)) ''A'' = Some \<lparr>waiter = 0, timeout = 0\<rparr> \<and>
   map_of (pendingRequests (run twoPending)) ''B'' = Some \<lparr>waiter = 1, timeout = 1\<rparr> \<and>
   deletePending ''A'' (deletePending ''A'' (run twoPending)) = deletePending ''A'' (run twoPending)"
  using table_and_timers_together [of twoPending "''A''"] noReuse_twoPending
  by (simp add: run_twoPending REQUEST_TIMEOUT_def)

subsection \<open>C4: disconnect drains the table\<close>

text \<open>
  C4. In every state a run reaches, whatever the socket and its readyState, after
  \<^verbatim>\<open>disconnect\<close> the table of pending requests is empty, there is no socket and
  \<^verbatim>\<open>isConnected\<close> is false; the calls made to the waiters are exactly one rejection
  with the Connection error "Connection closed" for each entry that was pending, in
  table order; and the timer of each of those entries is no longer armed.
\<close>

theorem disconnect_drains:
  "pendingRequests (disconnect (run evs)) = [] \<and>
   ws (disconnect (run evs)) = None \<and>
   \<not> isConnected (disconnect (run evs)) \<and>
   settled (disconnect (run evs)) =
     settled (run evs) @ map closedRejection (pendingRequests (run evs)) \<and>
   (\<forall>e \<in> set (pendingRequests (run evs)).
      map_of (timers (disconnect (run evs))) (timeout (snd e)) = None)"
proof -
  define s where "s = run evs"
  have i: "consistent s" unfolding s_def by (rule consistent_run)
  have "pendingRequests (disconnect s) = []"
    using i by (simp add: disconnect_pending consistent_def)
  moreover have "settled (disconnect s) = settled s @ map closedRejection (pendingRequests s)"
    using i by (simp add: disconnect_settled consistent_def)
  moreover have "\<forall>e \<in> set (pendingRequests s). map_of (timers (disconnect s)) (timeout (snd e)) = None"
  proof
    fix e assume e: "e \<in> set (pendingRequests s)"
    with i have "ws s \<noteq> None" by (auto simp add: consistent_def)
    then have "timeout (snd e) \<notin> fst ` set (timers (disconnect s))"
      using e by (auto simp add: disconnect_timers)
    then show "map_of (timers (disconnect s)) (timeout (snd e)) = None"
      by (simp add: map_of_eq_None_iff)
  qed
  ultimately show ?thesis by (simp add: s_def)
qed

theorem disconnect_drains_witness:
  "map fst (pendingRequests (run twoPending)) = [''A'', ''B''] \<and>
   pendingRequests (disconnect (run twoPending)) = [] \<and>
   \<not> isConnected (disconnect (run twoPending)) \<and>
   settled (disconnect (run twoPending)) =
     [(0, Rejected (mkError CONNECTION ''Connection closed'')),
      (1, Rejected (mkError CONNECTION ''Connection closed''))] \<and>
   map_of (timers (disconnect (run twoPending))) 0 = None \<and>
   map_of (timers (disconnect (run twoPending))) 1 = None"
  using disconnect_drains [of twoPending]
  by (simp add: run_twoPending closedRejection_def)

subsection \<open>C5: a request timer fires\<close>

text \<open>
  C5 as stated fails once an identifier has been reused while pending. Two requests are
  sent under "X" and no reply or error is ever received. The first timer fires: it removes
  the entry (the second request's) and rejects the first caller. The second timer fires:
  it finds no entry, so the second caller is not rejected.
\<close>

theorem reused_identifier_timeout_without_rejection:
  "settled (run reusedId) = [] \<and>
   settled (run (reusedId @ [TimerFire 0])) = [(0, Rejected (mkError TIMEOUT ''Request timed out''))] \<and>
   map_of (timers (run (reusedId @ [TimerFire 0]))) 1 =
     Some \<lparr>delay = 10000, requestId = ''X'', rejects = 1\<rparr> \<and>
   outcomesOf 1 (timerFire 1 (run (reusedId @ [TimerFire 0]))) = [] \<and>
   settled (timerFire 1 (run (reusedId @ [TimerFire 0]))) =
     [(0, Rejected (mkError TIMEOUT ''Request timed out''))] \<and>
   reconnects (timerFire 1 (run (reusedId @ [TimerFire 0]))) = 2"
  by (simp add: run_reusedId run_reusedId_timer outcomesOf_def op_defs)

text \<open>
  C5 (amended). In every state a run reaches, when an armed request timer fires while its
  identifier is still in the table: the timer was armed with the delay
  \<^verbatim>\<open>REQUEST_TIMEOUT\<close>, which is 10000; afterwards the identifier is not in the table and
  the timer is not armed; the caller of that request is rejected with the Timeout error
  "Request timed out", and with nothing else; \<^verbatim>\<open>reconnect\<close> has been called exactly once
  more; and nothing has been sent again. In a run in which no \<^verbatim>\<open>sendRequest\<close> is called
  with an identifier that is in the table at the time of the call, the identifier of every
  armed timer is still in the table.
\<close>

theorem request_timeout_fires:
  assumes armed: "map_of (timers (run evs)) t = Some c"
  shows "(noReuse evs \<longrightarrow> has (requestId c) (run evs)) \<and>
   (has (requestId c) (run evs) \<longrightarrow>
     delay c = REQUEST_TIMEOUT \<and> REQUEST_TIMEOUT = 10000 \<and>
     \<not> has (requestId c) (timerFire t (run evs)) \<and>
     map_of (timers (timerFire t (run evs))) t = None \<and>
     settled (timerFire t (run evs)) =
       settled (run evs) @
       (rejects c, Rejected (mkError TIMEOUT ''Request timed out'')) #
       map closedRejection (AList.delete (requestId c) (pendingRequests (run evs))) \<and>
     rejects c \<notin> (waiter \<circ> snd) ` set (AList.delete (requestId c) (pendingRequests (run evs))) \<and>
     reconnects (timerFire t (run evs)) = reconnects (run evs) + 1 \<and>
     sent (timerFire t (run evs)) = sent (run evs))"
proof (rule conjI)
  show "noReuse evs \<longrightarrow> has (requestId c) (run evs)"
  proof
    assume "noReuse evs"
    then have "coupled (run evs)" by (rule coupled_run)
    moreover have "(t, c) \<in> set (timers (run evs))" using armed by (rule map_of_SomeD)
    ultimately have "map_of (pendingRequests (run evs)) (requestId c) =
        Some \<lparr>waiter = rejects c, timeout = t\<rparr>"
      by (fastforce simp add: coupled_def)
    then show "has (requestId c) (run evs)" by (simp add: has_def)
  qed
next
  have "delay c = REQUEST_TIMEOUT \<and> REQUEST_TIMEOUT = 10000 \<and>
     \<not> has (requestId c) (timerFire t (run evs)) \<and>
     map_of (timers (timerFire t (run evs))) t = None \<and>
     settled (timerFire t (run evs)) =
       settled (run evs) @
       (rejects c, Rejected (mkError TIMEOUT ''Request timed out'')) #
       map closedRejection (AList.delete (requestId c) (pendingRequests (run evs))) \<and>
     rejects c \<notin> (waiter \<circ> snd) ` set (AList.delete (requestId c) (pendingRequests (run evs))) \<and>
     reconnects (timerFire t (run evs)) = reconnects (run evs) + 1 \<and>
     sent (timerFire t (run evs)) = sent (run evs)"
    if pending: "has (requestId c) (run evs)"
  proof -
    define s where "s = run evs"
    define k where "k = requestId c"
    define s1 where "s1 = settle (rejects c) (Rejected (mkError TIMEOUT ''Request timed out''))
        (deletePending k (clearTimeout t s))"
    have i: "consistent s" unfolding s_def by (rule consistent_run)
    have tc: "(t, c) \<in> set (timers s)" using armed unfolding s_def by (rule map_of_SomeD)
    have hk: "has k s" using pending by (simp add: s_def k_def)
    have fire: "timerFire t s = reconnect s1"
      using armed hk by (simp add: timerFire_def requestTimedOut_def s_def s1_def k_def)
    have wsS: "ws s \<noteq> None" using i hk by (auto simp add: consistent_def has_def)
    have f1: "ws s1 = ws s" "pendingRequests s1 = AList.delete k (pendingRequests s)"
      "timers s1 = AList.delete t (timers s)"
      "settled s1 = settled s @ [(rejects c, Rejected (mkError TIMEOUT ''Request timed out''))]"
      "sent s1 = sent s" "reconnects s1 = reconnects s"
      by (simp_all add: s1_def settle_def deletePending_def clearTimeout_def)
    have d: "delay c = REQUEST_TIMEOUT" using i tc by (auto simp add: consistent_def)
    have "pendingRequests (timerFire t s) = []"
      by (simp add: fire reconnect_fields disconnect_pending f1 wsS)
    then have nh: "\<not> has k (timerFire t s)" by (simp add: has_def)
    have "t \<notin> fst ` set (timers (timerFire t s))"
      by (auto simp add: fire reconnect_fields disconnect_timers f1 wsS AList.delete_eq)
    then have nt: "map_of (timers (timerFire t s)) t = None" by (simp add: map_of_eq_None_iff)
    have st: "settled (timerFire t s) = settled s @
         (rejects c, Rejected (mkError TIMEOUT ''Request timed out'')) #
         map closedRejection (AList.delete k (pendingRequests s))"
      by (simp add: fire reconnect_fields disconnect_settled f1 wsS)
    have once: "rejects c \<notin> (waiter \<circ> snd) ` set (AList.delete k (pendingRequests s))"
    proof
      assume "rejects c \<in> (waiter \<circ> snd) ` set (AList.delete k (pendingRequests s))"
      then obtain e where e: "e \<in> set (pendingRequests s)" "fst e \<noteq> k" "waiter (snd e) = rejects c"
        by (auto simp add: AList.delete_eq)
      with i tc have "fst e = requestId c" by (intro consistent_own)
      with e show False by (simp add: k_def)
    qed
    have "reconnects (timerFire t s) = reconnects s + 1" "sent (timerFire t s) = sent s"
      by (simp_all add: fire reconnect_fields f1)
    with d nh nt st once show ?thesis
      by (simp add: s_def k_def REQUEST_TIMEOUT_def)
  qed
  then show "has (requestId c) (run evs) \<longrightarrow>
     delay c = REQUEST_TIMEOUT \<and> REQUEST_TIMEOUT = 10000 \<and>
     \<not> has (requestId c) (timerFire t (run evs)) \<and>
     map_of (timers (timerFire t (run evs))) t = None \<and>
     settled (timerFire t (run evs)) =
       settled (run evs) @
       (rejects c, Rejected (mkError TIMEOUT ''Request timed out'')) #
       map closedRejection (AList.delete (requestId c) (pendingRequests (run evs))) \<and>
     rejects c \<notin> (waiter \<circ> snd) ` set (AList.delete (requestId c) (pendingRequests (run evs))) \<and>
     reconnects (timerFire t (run evs)) = reconnects (run evs) + 1 \<and>
     sent (timerFire t (run evs)) = sent (run evs)"
    by blast
qed

theorem request_timeout_fires_witness:
  "noReuse twoPending \<and>
   map_of (timers (run twoPending)) 0 = Some \<lparr>delay = 10000, requestId = ''A'', rejects = 0\<rparr> \<and>
   has ''A'' (run twoPending) \<and>
   \<not> has ''A'' (timerFire 0 (run twoPending)) \<and>
   settled (timerFire 0 (run twoPending)) =
     [(0, Rejected (mkError TIMEOUT ''Request timed out'')),
      (1, Rejected (mkError CONNECTION ''Connection closed''))] \<and>
   reconnects (timerFire 0 (run twoPending)) = 1 \<and>
   sent (timerFire 0 (run twoPending)) = sent (run twoPending)"
  using request_timeout_fires [of twoPending 0 "\<lparr>delay = 10000, requestId = ''A'', rejects = 0\<rparr>"]
    noReuse_twoPending
  by (simp add: run_twoPending op_defs)

subsection \<open>C6: when sendRequest fails with a Connection error\<close>



subsection \<open>C7: a reply for a pending request\<close>

text \<open>
  C7 as stated fails on replies for the pending request "A". With an error whose
  message is the empty string, the waiter is rejected with the message "Unknown error",
  not with the payload's message. With an error field that is present but falsy
  (\<^verbatim>\<open>null\<close>, as replies in the JSON-RPC style carry on success, or \<^verbatim>\<open>false\<close>), the
  waiter is not rejected at all: it is resolved with the result.
\<close>

theorem handleMessage_claimed_outcome_counterexample:
  "settled (handleMessage
      (Some (JObj [(''id'', JStr ''A''), (''error'', JObj [(''message'', JStr [])])]))
      (run twoPending)) =
     [(0, Rejected \<lparr>etype = TOOL_EXECUTION, emessage = JStr ''Unknown error'',
                     edetails = JUndefined\<rparr>)] \<and>
   claimedReplyOutcome [(''id'', JStr ''A''), (''error'', JObj [(''message'', JStr [])])] =
     Rejected \<lparr>etype = TOOL_EXECUTION, emessage = JStr [], edetails = JUndefined\<rparr> \<and>
   settled (handleMessage
      (Some (JObj [(''id'', JStr ''A''), (''result'', JNum 1), (''error'', JNull)]))
      (run twoPending)) = [(0, Resolved (JNum 1))] \<and>
   claimedReplyOutcome [(''id'', JStr ''A''), (''result'', JNum 1), (''error'', JNull)] =
     Rejected \<lparr>etype = TOOL_EXECUTION, emessage = JUndefined, edetails = JUndefined\<rparr> \<and>
   settled (handleMessage
      (Some (JObj [(''id'', JStr ''A''), (''error'', JBool False), (''result'', JNum 1)]))
      (run twoPending)) = [(0, Resolved (JNum 1))] \<and>
   claimedReplyOutcome [(''id'', JStr ''A''), (''error'', JBool False), (''result'', JNum 1)] =
     Rejected \<lparr>etype = TOOL_EXECUTION, emessage = JUndefined, edetails = JUndefined\<rparr>"
  by (simp add: run_twoPending claimedReplyOutcome_def propOf_def handleMessage_def
      handleMessage_try_def field_def settle_def deletePending_def clearTimeout_def js_or_def)

text \<open>
  C7 (amended). For a parsed message whose \<^verbatim>\<open>id\<close> is a key of the table,
  \<^verbatim>\<open>handleMessage\<close> cancels that entry's timer, removes the entry and then settles its
  waiter: when the \<^verbatim>\<open>error\<close> field is truthy, it rejects with a ToolExecution error
  carrying the error's message, or "Unknown error" when that message is missing or falsy,
  and the error's details; otherwise it resolves with the \<^verbatim>\<open>result\<close> field.
\<close>

theorem handleMessage_routes:
  "field kvs ''id'' = JStr k \<Longrightarrow> k \<noteq> [] \<Longrightarrow> map_of (pendingRequests s) k = Some request \<Longrightarrow>
   handleMessage (Some (JObj kvs)) s =
     settle (waiter request)
       (if truthy (field kvs ''error'') then
          Rejected \<lparr>etype = TOOL_EXECUTION,
                    emessage = js_or (propOf (field kvs ''error'') ''message'') (JStr ''Unknown error''),
                    edetails = propOf (field kvs ''error'') ''details''\<rparr>
        else Resolved (field kvs ''result''))
       (deletePending k (clearTimeout (timeout request) s))"
  by (cases "field kvs ''error''")
     (simp_all add: handleMessage_def handleMessage_try_def propOf_def Let_def)

theorem handleMessage_routes_witness:
  "field [(''id'', JStr ''A''), (''error'', JObj [(''message'', JStr ''boom'')])] ''id'' = JStr ''A'' \<and>
   map_of (pendingRequests (run twoPending)) ''A'' = Some \<lparr>waiter = 0, timeout = 0\<rparr> \<and>
   handleMessage (Some (JObj [(''id'', JStr ''A''), (''error'', JObj [(''message'', JStr ''boom'')])]))
       (run twoPending) =
     settle 0 (Rejected \<lparr>etype = TOOL_EXECUTION, emessage = JStr ''boom'', edetails = JUndefined\<rparr>)
       (deletePending ''A'' (clearTimeout 0 (run twoPending))) \<and>
   handleMessage (Some (JObj [(''id'', JStr ''B''), (''result'', JObj [(''success'', JBool True)])]))
       (run twoPending) =
     settle 1 (Resolved (JObj [(''success'', JBool True)]))
       (deletePending ''B'' (clearTimeout 1 (run twoPending)))"
  using handleMessage_routes [of "[(''id'', JStr ''A''), (''error'', JObj [(''message'', JStr ''boom'')])]"
      "''A''" "run twoPending" "\<lparr>waiter = 0, timeout = 0\<rparr>"]
    handleMessage_routes [of "[(''id'', JStr ''B''), (''result'', JObj [(''success'', JBool True)])]"
      "''B''" "run twoPending" "\<lparr>waiter = 1, timeout = 1\<rparr>"]
  by (simp add: run_twoPending field_def propOf_def js_or_def)

subsection \<open>C8: messages that match no pending request\<close>

text \<open>
  C8. A message that fails to parse, a message whose \<^verbatim>\<open>id\<close> cannot be read or is falsy
  (absent), and a message whose \<^verbatim>\<open>id\<close> is not a key of the table leave the whole state
  as it was: no waiter is called, the table and the timers are untouched. The handler
  returns a state in each case: what is thrown inside the \<^verbatim>\<open>try\<close> is caught.
\<close>

theorem handleMessage_ignores:
  "handleMessage None s = s \<and>
   (getProp response ''id'' = Inl e \<longrightarrow> handleMessage (Some response) s = s) \<and>
   (getProp response ''id'' = Inr i \<and> \<not> truthy i \<longrightarrow> handleMessage (Some response) s = s) \<and>
   (getProp response ''id'' = Inr i \<and> (\<forall>k. i = JStr k \<longrightarrow> \<not> has k s) \<longrightarrow>
      handleMessage (Some response) s = s)"
  by (auto simp add: handleMessage_def handleMessage_try_def has_def split: jsval.splits option.splits)

theorem handleMessage_ignores_witness:
  "pendingRequests (run twoPending) \<noteq> [] \<and>
   handleMessage None (run twoPending) = run twoPending \<and>
   getProp JNull ''id'' = Inl TypeError \<and>
   handleMessage (Some JNull) (run twoPending) = run twoPending \<and>
   getProp (JObj [(''result'', JNum 1)]) ''id'' = Inr JUndefined \<and> \<not> truthy JUndefined \<and>
   handleMessage (Some (JObj [(''result'', JNum 1)])) (run twoPending) = run twoPending \<and>
   getProp (JObj [(''id'', JStr ''Z''), (''result'', JNum 1)]) ''id'' = Inr (JStr ''Z'') \<and>
   \<not> has ''Z'' (run twoPending) \<and>
   handleMessage (Some (JObj [(''id'', JStr ''Z''), (''result'', JNum 1)])) (run twoPending) = run twoPending"
  using handleMessage_ignores [of "run twoPending" JNull TypeError]
    handleMessage_ignores [of "run twoPending" "JObj [(''result'', JNum 1)]" _ JUndefined]
    handleMessage_ignores [of "run twoPending" "JObj [(''id'', JStr ''Z''), (''result'', JNum 1)]" _ "JStr ''Z''"]
  by (simp add: run_twoPending field_def has_def)

subsection \<open>C9: reconnect carries no client name\<close>

text \<open>
  C9. \<^verbatim>\<open>reconnect\<close> calls \<^verbatim>\<open>connect\<close> with no argument: from any state, whatever
  client name the current socket was created with, the socket after \<^verbatim>\<open>reconnect\<close> is a
  new one (one more socket constructed), still connecting, whose X-Client-Name header and
  origin are the empty string; the same holds after an armed request timer fires.
\<close>

theorem reconnect_unlabelled:
  "ws (reconnect s) = Some \<lparr>readyState = CONNECTING, xClientName = [], origin = []\<rparr> \<and>
   connects (reconnect s) = connects s + 1 \<and>
   (map_of (timers s) t \<noteq> None \<longrightarrow>
      ws (timerFire t s) = Some \<lparr>readyState = CONNECTING, xClientName = [], origin = []\<rparr> \<and>
      connects (timerFire t s) = connects s + 1)"
  by (auto simp add: reconnect_fields timerFire_def requestTimedOut_def settle_def deletePending_def
      clearTimeout_def)

theorem reconnect_unlabelled_witness:
  "ws (run twoPending) = Some \<lparr>readyState = OPEN, xClientName = ''Cursor'', origin = ''Cursor''\<rparr> \<and>
   map_of (timers (run twoPending)) 0 \<noteq> None \<and>
   ws (timerFire 0 (run twoPending)) = Some \<lparr>readyState = CONNECTING, xClientName = [], origin = []\<rparr> \<and>
   ws (reconnect (run twoPending)) = Some \<lparr>readyState = CONNECTING, xClientName = [], origin = []\<rparr>"
  using reconnect_unlabelled [of "run twoPending" 0]
  by (simp add: run_twoPending)

subsection \<open>C10: the get_console_logs tool\<close>

text \<open>
  C10 as stated fails when the promise of \<^verbatim>\<open>sendRequest\<close> resolves with \<^verbatim>\<open>null\<close> or
  \<^verbatim>\<open>undefined\<close> (a reply whose result is null or missing): such a response has no truthy
  \<^verbatim>\<open>success\<close> field, and the handler throws the TypeError of reading
  \<^verbatim>\<open>response.success\<close>, not a ToolExecution error.
\<close>

theorem toolHandler_null_response_counterexample:
  "lacksTruthySuccess JNull \<and>
   toolHandler (\<lambda>request. Resolved JNull) [] = ([toolRequest []], Inl TypeError) \<and>
   lacksTruthySuccess JUndefined \<and>
   toolHandler (\<lambda>request. Resolved JUndefined) [] = ([toolRequest []], Inl TypeError) \<and>
   claimedToolFailure JNull =
     Inl (Thrown \<lparr>etype = TOOL_EXECUTION, emessage = JStr ''Failed to fetch logs from Unity'',
            edetails = JUndefined\<rparr>)"
  by (simp add: lacksTruthySuccess_def claimedToolFailure_def propOf_def toolHandler_def
      toolResult_def js_or_def)

text \<open>
  C10 (amended). Every call of the handler sends exactly one request, with no identifier of
  its own, the method "get_console_logs", the caller's \<^verbatim>\<open>logType\<close>, and \<^verbatim>\<open>offset\<close>,
  \<^verbatim>\<open>limit\<close> and \<^verbatim>\<open>includeStackTrace\<close> as given or else 0, 50 and true. The schema accepts
  for \<^verbatim>\<open>limit\<close> exactly \<^verbatim>\<open>undefined\<close> and the integers from 1 to 500, and for
  \<^verbatim>\<open>offset\<close> exactly \<^verbatim>\<open>undefined\<close> and the integers from 0. When the response is neither
  \<^verbatim>\<open>null\<close> nor \<^verbatim>\<open>undefined\<close> and its \<^verbatim>\<open>success\<close> is not truthy, the handler throws a
  ToolExecution error with the response's message if truthy, else
  "Failed to fetch logs from Unity".
\<close>

theorem toolHandler_get_console_logs:
  "fst (toolHandler unity params) = [toolRequest params] \<and>
   rid (toolRequest params) = None \<and>
   rmethod (toolRequest params) = ''get_console_logs'' \<and>
   propOf (rparams (toolRequest params)) ''logType'' = field params ''logType'' \<and>
   propOf (rparams (toolRequest params)) ''offset'' =
     (if field params ''offset'' = JUndefined then JNum 0 else field params ''offset'') \<and>
   propOf (rparams (toolRequest params)) ''limit'' =
     (if field params ''limit'' = JUndefined then JNum 50 else field params ''limit'') \<and>
   propOf (rparams (toolRequest params)) ''includeStackTrace'' =
     (if field params ''includeStackTrace'' = JUndefined then JBool True
      else field params ''includeStackTrace'') \<and>
   (limitSchema v \<longleftrightarrow>
      v = JUndefined \<or> (\<exists>n::int. v = JNum (rat_of_int n) \<and> 1 \<le> n \<and> n \<le> 500)) \<and>
   (offsetSchema v \<longleftrightarrow> v = JUndefined \<or> (\<exists>n::int. v = JNum (rat_of_int n) \<and> 0 \<le> n)) \<and>
   (paramsSchema params \<longrightarrow>
      limitSchema (field params ''limit'') \<and> offsetSchema (field params ''offset'')) \<and>
   (unity (toolRequest params) = Resolved response \<and> response \<noteq> JNull \<and>
    response \<noteq> JUndefined \<and> \<not> truthy (propOf response ''success'') \<longrightarrow>
      snd (toolHandler unity params) =
        Inl (Thrown \<lparr>etype = TOOL_EXECUTION,
               emessage = js_or (propOf response ''message'')
                            (JStr ''Failed to fetch logs from Unity''),
               edetails = JUndefined\<rparr>))"
proof -
  have req: "fst (toolHandler unity params) = [toolRequest params]"
    by (simp add: toolHandler_def Let_def)
  have flds: "rid (toolRequest params) = None"
    "rmethod (toolRequest params) = ''get_console_logs''"
    "propOf (rparams (toolRequest params)) ''logType'' = field params ''logType''"
    "propOf (rparams (toolRequest params)) ''offset'' =
       (if field params ''offset'' = JUndefined then JNum 0 else field params ''offset'')"
    "propOf (rparams (toolRequest params)) ''limit'' =
       (if field params ''limit'' = JUndefined then JNum 50 else field params ''limit'')"
    "propOf (rparams (toolRequest params)) ''includeStackTrace'' =
       (if field params ''includeStackTrace'' = JUndefined then JBool True
        else field params ''includeStackTrace'')"
    by (simp_all add: toolRequest_def propOf_def orDefault_def field_def)
  have sch: "paramsSchema params \<longrightarrow>
      limitSchema (field params ''limit'') \<and> offsetSchema (field params ''offset'')"
    by (simp add: paramsSchema_def)
  have fail: "unity (toolRequest params) = Resolved response \<and> response \<noteq> JNull \<and>
    response \<noteq> JUndefined \<and> \<not> truthy (propOf response ''success'') \<longrightarrow>
      snd (toolHandler unity params) =
        Inl (Thrown \<lparr>etype = TOOL_EXECUTION,
               emessage = js_or (propOf response ''message'')
                            (JStr ''Failed to fetch logs from Unity''),
               edetails = JUndefined\<rparr>)"
    by (simp add: toolHandler_def Let_def toolResult_failure)
  from req flds limitSchema_iff [of v] offsetSchema_iff [of v] sch fail show ?thesis
    by (intro conjI)
qed

theorem toolHandler_get_console_logs_witness:
  "paramsSchema [(''limit'', JNum 10)] \<and>
   limitSchema (JNum 500) \<and> \<not> limitSchema (JNum 501) \<and> \<not> limitSchema (JNum 0) \<and>
   offsetSchema (JNum 0) \<and> \<not> offsetSchema (JNum (- 1)) \<and>
   toolHandler (\<lambda>request. Resolved (JObj [(''success'', JBool False), (''message'', JStr ''no editor'')]))
       [(''limit'', JNum 10)] =
     ([\<lparr>rid = None, rmethod = ''get_console_logs'',
        rparams = JObj [(''logType'', JUndefined), (''offset'', JNum 0), (''limit'', JNum 10),
                        (''includeStackTrace'', JBool True)]\<rparr>],
      Inl (Thrown \<lparr>etype = TOOL_EXECUTION, emessage = JStr ''no editor'', edetails = JUndefined\<rparr>)) \<and>
   snd (toolHandler (\<lambda>request. Resolved (JObj [])) []) =
     Inl (Thrown \<lparr>etype = TOOL_EXECUTION, emessage = JStr ''Failed to fetch logs from Unity'',
            edetails = JUndefined\<rparr>)"
  using toolHandler_get_console_logs [of
      "\<lambda>request. Resolved (JObj [(''success'', JBool False), (''message'', JStr ''no editor'')])"
      "[(''limit'', JNum 10)]" "JNum 500"
      "JObj [(''success'', JBool False), (''message'', JStr ''no editor'')]"]
    toolHandler_get_console_logs [of "\<lambda>request. Resolved (JObj [])" "[]" "JNum 0" "JObj []"]
  by (simp add: paramsSchema_def limitSchema_def offsetSchema_def logTypeSchema_def
      includeStackTraceSchema_def isInteger_def field_def propOf_def js_or_def toolHandler_def
      toolRequest_def toolResult_def orDefault_def)

end
